theory Spec2Isabelle
  imports Complex_Main "HOL-Library.Sublist" "HOL-Library.Char_ord" "HOL-Library.List_Lexorder"
    "HOL-Library.Product_Lexorder"
begin

section \<open>Red Rocks scenic loop: path projection and area scoring\<close>

text \<open>
  The development embeds the two Python modules \<^verbatim>\<open>analyze_scenic_loop_path.py\<close> and
  \<^verbatim>\<open>create_area_summary_scenic.py\<close>.

  Python floats are modelled as exact reals: \<open>+\<close>, \<open>*\<close>, \<open>/\<close>, \<open>sin\<close>, \<open>cos\<close> and
  \<open>sqrt\<close> are the mathematical operations, without rounding, overflow or NaN.
  What the code raises is a value of \<open>py_error\<close>; \<open>float('inf')\<close> is the
  constructor \<open>PInf\<close>.
\<close>

subsection \<open>Errors and the math library\<close>

datatype py_error = ValueError | ZeroDivisionError | KeyError | OverflowError

text \<open>\<^verbatim>\<open>math.radians\<close>.\<close>

definition radians :: "real \<Rightarrow> real" where
  "radians x = x * (pi / 180)"

text \<open>\<^verbatim>\<open>math.sqrt\<close> raises \<^verbatim>\<open>ValueError: math domain error\<close> on a negative argument.\<close>

definition py_sqrt :: "real \<Rightarrow> py_error + real" where
  "py_sqrt x = (if x < 0 then Inl ValueError else Inr (sqrt x))"

text \<open>\<^verbatim>\<open>math.atan2 y x\<close>: the angle of the point \<open>(x, y)\<close>, in \<open>(-pi, pi]\<close>.\<close>

definition atan2 :: "real \<Rightarrow> real \<Rightarrow> real" where
  "atan2 y x =
     (if 0 < x then arctan (y / x)
      else if x < 0 then (if 0 \<le> y then arctan (y / x) + pi else arctan (y / x) - pi)
      else if 0 < y then pi / 2
      else if y < 0 then - (pi / 2)
      else 0)"

text \<open>Float division \<^verbatim>\<open>a / b\<close> raises \<^verbatim>\<open>ZeroDivisionError\<close> when \<open>b\<close> is zero.\<close>

definition py_div :: "real \<Rightarrow> real \<Rightarrow> py_error + real" where
  "py_div a b = (if b = 0 then Inl ZeroDivisionError else Inr (a / b))"

subsection \<open>\<^verbatim>\<open>calculate_distance\<close>: the haversine formula\<close>

definition R :: real where
  "R = 3959"

text \<open>The intermediate term \<^verbatim>\<open>a\<close> of \<^verbatim>\<open>calculate_distance\<close>.\<close>

definition haversine_a :: "real \<Rightarrow> real \<Rightarrow> real \<Rightarrow> real \<Rightarrow> real" where
  "haversine_a lat1 lon1 lat2 lon2 =
     (let lat1_rad = radians lat1;
          lat2_rad = radians lat2;
          delta_lat = radians (lat2 - lat1);
          delta_lon = radians (lon2 - lon1)
      in (sin (delta_lat / 2))\<^sup>2 + cos lat1_rad * cos lat2_rad * (sin (delta_lon / 2))\<^sup>2)"

text \<open>
  The rest of the function, from \<^verbatim>\<open>a\<close> on:
  \<^verbatim>\<open>c = 2 * math.atan2(math.sqrt(a), math.sqrt(1-a)); return R * c\<close>.
\<close>

definition distance_from_a :: "real \<Rightarrow> py_error + real" where
  "distance_from_a a =
     (case py_sqrt a of
        Inl e \<Rightarrow> Inl e
      | Inr sa \<Rightarrow>
          (case py_sqrt (1 - a) of
             Inl e \<Rightarrow> Inl e
           | Inr sb \<Rightarrow> Inr (R * (2 * atan2 sa sb))))"

definition calculate_distance :: "real \<Rightarrow> real \<Rightarrow> real \<Rightarrow> real \<Rightarrow> py_error + real" where
  "calculate_distance lat1 lon1 lat2 lon2 = distance_from_a (haversine_a lat1 lon1 lat2 lon2)"

subsection \<open>\<^verbatim>\<open>distance_to_line_segment\<close>\<close>

definition distance_to_line_segment ::
  "real \<Rightarrow> real \<Rightarrow> real \<Rightarrow> real \<Rightarrow> real \<Rightarrow> real \<Rightarrow> py_error + (real \<times> real)" where
  "distance_to_line_segment px py x1 y1 x2 y2 =
     (let dx = x2 - x1;
          dy = y2 - y1
      in if dx = 0 \<and> dy = 0 then
           (case calculate_distance px py x1 y1 of
              Inl e \<Rightarrow> Inl e
            | Inr dist0 \<Rightarrow> Inr (dist0, 0))
         else
           (case py_div ((px - x1) * dx + (py - y1) * dy) (dx * dx + dy * dy) of
              Inl e \<Rightarrow> Inl e
            | Inr t0 \<Rightarrow>
                (let t = max 0 (min 1 t0);
                     closest_x = x1 + t * dx;
                     closest_y = y1 + t * dy
                 in case calculate_distance px py closest_x closest_y of
                      Inl e \<Rightarrow> Inl e
                    | Inr distance \<Rightarrow> Inr (distance, t))))"

subsection \<open>\<^verbatim>\<open>find_closest_waypoint_on_path\<close>\<close>

type_synonym waypoint = "real \<times> real \<times> string"

definition SCENIC_LOOP_WAYPOINTS :: "waypoint list" where
  "SCENIC_LOOP_WAYPOINTS =
     [(36.1588, -115.4264, ''Visitor Center / Entrance''),
      (36.1450, -115.4450, ''Early Drive Section''),
      (36.1300, -115.4600, ''Calico Hills Approach''),
      (36.1480, -115.4280, ''Calico Basin / First Pullout''),
      (36.1200, -115.4700, ''Central Canyon Area''),
      (36.1000, -115.4800, ''Southern Canyon Area''),
      (36.1100, -115.5000, ''Pine Creek Canyon''),
      (36.1150, -115.4900, ''Juniper Canyon''),
      (36.1250, -115.4850, ''Icebox Canyon Area''),
      (36.1350, -115.4800, ''Willow Spring Area''),
      (36.1500, -115.4650, ''Late Drive Section''),
      (36.1588, -115.4264, ''Return to Visitor Center'')]"

text \<open>A float that may be \<^verbatim>\<open>float('inf')\<close>, the initial \<^verbatim>\<open>min_distance\<close>.\<close>

datatype efloat = PInf | Fin real

fun lt_efloat :: "real \<Rightarrow> efloat \<Rightarrow> bool" where
  "lt_efloat d PInf = True"
| "lt_efloat d (Fin m) = (d < m)"

text \<open>
  The loop over \<^verbatim>\<open>range(len(waypoints) - 1)\<close>; the state is
  \<^verbatim>\<open>(min_distance, closest_segment, closest_position_on_segment)\<close>. The waypoint
  list is a parameter; the program's own list is \<open>SCENIC_LOOP_WAYPOINTS\<close>.
\<close>

fun path_loop ::
  "waypoint list \<Rightarrow> real \<Rightarrow> real \<Rightarrow> nat list \<Rightarrow> efloat \<times> nat \<times> real
     \<Rightarrow> py_error + (efloat \<times> nat \<times> real)" where
  "path_loop ws lat lon [] st = Inr st"
| "path_loop ws lat lon (i # is) (min_distance, closest_segment, closest_position_on_segment) =
     (case ws ! i of (wp1_lat, wp1_lon, _) \<Rightarrow>
      case ws ! (i + 1) of (wp2_lat, wp2_lon, _) \<Rightarrow>
        (case distance_to_line_segment lat lon wp1_lat wp1_lon wp2_lat wp2_lon of
           Inl e \<Rightarrow> Inl e
         | Inr (segment_distance, position_on_segment) \<Rightarrow>
             if lt_efloat segment_distance min_distance
             then path_loop ws lat lon is (Fin segment_distance, i, position_on_segment)
             else path_loop ws lat lon is
                    (min_distance, closest_segment, closest_position_on_segment)))"

definition closest_on_path ::
  "waypoint list \<Rightarrow> real \<Rightarrow> real \<Rightarrow> py_error + (real \<times> efloat)" where
  "closest_on_path ws lat lon =
     (case path_loop ws lat lon [0 ..< length ws - 1] (PInf, 0, 0) of
        Inl e \<Rightarrow> Inl e
      | Inr (min_distance, closest_segment, closest_position_on_segment) \<Rightarrow>
          (let total_segments = int (length ws) - 1
           in case py_div (real closest_segment + closest_position_on_segment)
                          (real_of_int total_segments) of
                Inl e \<Rightarrow> Inl e
              | Inr path_position \<Rightarrow> Inr (path_position, min_distance)))"

definition find_closest_waypoint_on_path :: "real \<Rightarrow> real \<Rightarrow> py_error + (real \<times> efloat)" where
  "find_closest_waypoint_on_path lat lon = closest_on_path SCENIC_LOOP_WAYPOINTS lat lon"

text \<open>
  What one pass of the loop body computes for segment \<open>i\<close>: the call of
  \<open>distance_to_line_segment\<close> on the waypoints \<open>i\<close> and \<open>i + 1\<close>.
\<close>

definition segment_result :: "waypoint list \<Rightarrow> real \<Rightarrow> real \<Rightarrow> nat \<Rightarrow> py_error + (real \<times> real)" where
  "segment_result ws lat lon i =
     (case ws ! i of (wp1_lat, wp1_lon, _) \<Rightarrow>
      case ws ! (i + 1) of (wp2_lat, wp2_lon, _) \<Rightarrow>
        distance_to_line_segment lat lon wp1_lat wp1_lon wp2_lat wp2_lon)"

text \<open>The distance and the position that this call returns (it never raises, see below).\<close>

definition seg_d :: "waypoint list \<Rightarrow> real \<Rightarrow> real \<Rightarrow> nat \<Rightarrow> real" where
  "seg_d ws lat lon i = fst (projr (segment_result ws lat lon i))"

definition seg_t :: "waypoint list \<Rightarrow> real \<Rightarrow> real \<Rightarrow> nat \<Rightarrow> real" where
  "seg_t ws lat lon i = snd (projr (segment_result ws lat lon i))"

subsection \<open>Route-to-path assignment: \<^verbatim>\<open>load_data\<close> and \<^verbatim>\<open>analyze_scenic_loop_order\<close>\<close>

text \<open>
  A \<^verbatim>\<open>DataFrame\<close> is the list of its rows in order, each with its index label. Of a
  route's columns the records keep the name, the area and canyon labels and the
  coordinate; the rating, type, pitch and star columns are carried along unchanged by
  the program and are left out. A missing cell (pandas' NaN) is \<open>None\<close>.
\<close>

record csv_row =
  csv_Route :: string
  csv_Area :: "string option"
  csv_Canyon :: "string option"
  csv_Latitude :: "real option"
  csv_Longitude :: "real option"

record route_row =
  Route :: string
  Area :: "string option"
  Canyon :: "string option"
  Latitude :: real
  Longitude :: real

record positioned_row = route_row +
  Path_Position :: "real option"
  Distance_to_Road :: "efloat option"

record placed_row = positioned_row +
  Scenic_Loop_Order :: int

type_synonym 'a dataframe = "(nat \<times> 'a) list"

text \<open>
  \<^verbatim>\<open>load_data\<close>, its row filter. \<^verbatim>\<open>read_csv\<close> labels the rows \<open>0, 1, 2, ...\<close>;
  \<^verbatim>\<open>dropna(subset=['Latitude', 'Longitude'])\<close> and the filter on nonzero coordinates
  remove rows and leave the labels of the others as they are: the index is not reset.
  The area and canyon cells are taken as already split from the location column.
\<close>

definition load_data :: "csv_row list \<Rightarrow> route_row dataframe" where
  "load_data rows =
     concat (map (\<lambda>(i, r).
        case (csv_Latitude r, csv_Longitude r) of
          (Some lat, Some lon) \<Rightarrow>
            if lat \<noteq> 0 \<and> lon \<noteq> 0
            then [(i, \<lparr>Route = csv_Route r, Area = csv_Area r, Canyon = csv_Canyon r,
                        Latitude = lat, Longitude = lon\<rparr>)]
            else []
        | _ \<Rightarrow> [])
      (zip [0 ..< length rows] rows))"

text \<open>The loop over \<^verbatim>\<open>df.iterrows()\<close> that fills \<^verbatim>\<open>path_data\<close>, in row order.\<close>

fun path_data :: "route_row dataframe \<Rightarrow> py_error + (real \<times> efloat) list" where
  "path_data [] = Inr []"
| "path_data ((_, row) # rest) =
     (case find_closest_waypoint_on_path (Latitude row) (Longitude row) of
        Inl e \<Rightarrow> Inl e
      | Inr pd \<Rightarrow> (case path_data rest of Inl e \<Rightarrow> Inl e | Inr pds \<Rightarrow> Inr (pd # pds)))"

text \<open>
  \<^verbatim>\<open>df['Path_Position'] = path_df['Path_Position']\<close>: \<^verbatim>\<open>path_df\<close> is built from a list,
  so its labels are \<open>0 .. N-1\<close>, and assigning a column aligns on the index label: the
  row of \<^verbatim>\<open>df\<close> labelled \<open>l\<close> receives the value that \<^verbatim>\<open>path_df\<close> has at label \<open>l\<close>, and
  NaN when \<^verbatim>\<open>path_df\<close> has no such label.
\<close>

definition assign_columns ::
  "route_row dataframe \<Rightarrow> (real \<times> efloat) list \<Rightarrow> positioned_row dataframe" where
  "assign_columns df pds =
     map (\<lambda>(l, row).
        (l, \<lparr>Route = Route row, Area = Area row, Canyon = Canyon row,
             Latitude = Latitude row, Longitude = Longitude row,
             Path_Position = (if l < length pds then Some (fst (pds ! l)) else None),
             Distance_to_Road = (if l < length pds then Some (snd (pds ! l)) else None)\<rparr>)) df"

text \<open>
  \<^verbatim>\<open>sort_values\<close>: ascending, NaN last. Rows with equal keys keep their order here;
  pandas' default sort leaves their order open.
\<close>

fun nan_last_le :: "real option \<Rightarrow> real option \<Rightarrow> bool" where
  "nan_last_le _ None = True"
| "nan_last_le None (Some _) = False"
| "nan_last_le (Some a) (Some b) = (a \<le> b)"

fun insort_by :: "('a \<Rightarrow> 'a \<Rightarrow> bool) \<Rightarrow> 'a \<Rightarrow> 'a list \<Rightarrow> 'a list" where
  "insort_by le x [] = [x]"
| "insort_by le x (y # ys) = (if le x y then x # y # ys else y # insort_by le x ys)"

definition sort_by :: "('a \<Rightarrow> 'a \<Rightarrow> bool) \<Rightarrow> 'a list \<Rightarrow> 'a list" where
  "sort_by le xs = foldr (insort_by le) xs []"

definition sort_values_Path_Position ::
  "positioned_row dataframe \<Rightarrow> positioned_row dataframe" where
  "sort_values_Path_Position df =
     sort_by (\<lambda>a b. nan_last_le (Path_Position (snd a)) (Path_Position (snd b))) df"

text \<open>\<^verbatim>\<open>df['Scenic_Loop_Order'] = range(1, len(df) + 1)\<close>: by position.\<close>

definition assign_order :: "positioned_row dataframe \<Rightarrow> placed_row dataframe" where
  "assign_order df =
     map (\<lambda>(n, (l, row)).
        (l, \<lparr>Route = Route row, Area = Area row, Canyon = Canyon row,
             Latitude = Latitude row, Longitude = Longitude row,
             Path_Position = Path_Position row, Distance_to_Road = Distance_to_Road row,
             Scenic_Loop_Order = int n + 1\<rparr>))
      (zip [0 ..< length df] df)"

text \<open>
  \<^verbatim>\<open>analyze_scenic_loop_order\<close>. From an empty \<^verbatim>\<open>path_data\<close> pandas builds a frame
  without columns, and reading its \<^verbatim>\<open>'Path_Position'\<close> raises \<^verbatim>\<open>KeyError\<close>.
\<close>

definition analyze_scenic_loop_order :: "route_row dataframe \<Rightarrow> py_error + placed_row dataframe" where
  "analyze_scenic_loop_order df =
     (case path_data df of
        Inl e \<Rightarrow> Inl e
      | Inr pds \<Rightarrow>
          if pds = [] then Inl KeyError
          else Inr (assign_order (sort_values_Path_Position (assign_columns df pds))))"

subsection \<open>Scoring: \<^verbatim>\<open>parse_rating\<close> and the scores built on it\<close>

text \<open>
  A cell of the rating or route-type column: missing (NaN) or text. Strings are ASCII;
  \<open>isspace\<close>, \<open>isdigit\<close> and \<open>upper\<close> are Python's on that range.
\<close>

datatype cell = NaN | Str string

definition isspace :: "char \<Rightarrow> bool" where
  "isspace c = (c \<in> {CHR '' '', CHR 0x09, CHR 0x0A, CHR 0x0B, CHR 0x0C, CHR 0x0D,
                      CHR 0x1C, CHR 0x1D, CHR 0x1E, CHR 0x1F})"

definition isdigit_char :: "char \<Rightarrow> bool" where
  "isdigit_char c = (CHR ''0'' \<le> c \<and> c \<le> CHR ''9'')"

definition upper_char :: "char \<Rightarrow> char" where
  "upper_char c =
     (let n = (of_char c :: nat) in if 97 \<le> n \<and> n \<le> 122 then char_of (n - 32) else c)"

text \<open>\<^verbatim>\<open>str.strip()\<close>, \<^verbatim>\<open>str.upper()\<close>, \<^verbatim>\<open>str.isdigit()\<close>, \<^verbatim>\<open>int(s)\<close> on a digit string.\<close>

definition strip :: "string \<Rightarrow> string" where
  "strip s = rev (dropWhile isspace (rev (dropWhile isspace s)))"

definition upper :: "string \<Rightarrow> string" where
  "upper s = map upper_char s"

definition isdigit :: "string \<Rightarrow> bool" where
  "isdigit s = (s \<noteq> [] \<and> list_all isdigit_char s)"

definition digit_value :: "char \<Rightarrow> nat" where
  "digit_value c = of_char c - 48"

definition int_of_digits :: "string \<Rightarrow> nat" where
  "int_of_digits s = foldl (\<lambda>acc c. 10 * acc + digit_value c) 0 s"

text \<open>
  \<^verbatim>\<open>re.sub(r'\s+(PG13|PG|R|X|A\d|C\d)', '', rating)\<close>. \<open>match_modifier\<close> tries the
  alternatives in order at the start of a string and returns what follows the match.
  At a whitespace character the pattern takes the whole run of whitespace and then
  needs an alternative; giving back whitespace cannot help, since no alternative starts
  with whitespace. A match is dropped and the scan goes on behind it; otherwise the
  character is kept.
\<close>

definition match_modifier :: "string \<Rightarrow> string option" where
  "match_modifier s =
     (if prefix ''PG13'' s then Some (drop 4 s)
      else if prefix ''PG'' s then Some (drop 2 s)
      else if prefix ''R'' s then Some (drop 1 s)
      else if prefix ''X'' s then Some (drop 1 s)
      else (case s of
              a # d # rest \<Rightarrow>
                if a = CHR ''A'' \<and> isdigit_char d then Some rest
                else if a = CHR ''C'' \<and> isdigit_char d then Some rest
                else None
            | _ \<Rightarrow> None))"

function remove_modifiers :: "string \<Rightarrow> string" where
  "remove_modifiers [] = []"
| "remove_modifiers (c # cs) =
     (if isspace c then
        (case match_modifier (dropWhile isspace cs) of
           Some rest \<Rightarrow> remove_modifiers rest
         | None \<Rightarrow> c # remove_modifiers cs)
      else c # remove_modifiers cs)"
  by pat_completeness auto
termination
proof (relation "measure length")
  fix c cs rest
  assume "match_modifier (dropWhile isspace cs) = Some rest"
  then have "length rest \<le> length (dropWhile isspace cs)"
    by (auto simp: match_modifier_def split: if_splits list.splits)
  also have "\<dots> \<le> length cs" by (rule length_dropWhile_le)
  finally show "(rest, c # cs) \<in> measure length" by simp
qed simp_all

text \<open>
  \<^verbatim>\<open>float(s)\<close>, for the strings that reach it: upper case, no sign, no whitespace.
  The number is \<^verbatim>\<open>[digitpart] "." digitpart | digitpart ["."]\<close> with an optional exponent
  \<^verbatim>\<open>"E" digitpart\<close>, where a digitpart is digits with single underscores between them;
  anything else raises \<^verbatim>\<open>ValueError\<close> (\<open>None\<close>). The value is the exact decimal value.
\<close>

definition digitpart :: "string \<Rightarrow> bool" where
  "digitpart s =
     (s \<noteq> [] \<and> isdigit_char (hd s) \<and> isdigit_char (last s)
      \<and> list_all (\<lambda>c. isdigit_char c \<or> c = CHR ''_'') s \<and> \<not> sublist ''__'' s)"

definition digits_value :: "string \<Rightarrow> nat" where
  "digits_value s = int_of_digits (filter isdigit_char s)"

definition py_float :: "string \<Rightarrow> real option" where
  "py_float s =
     (let mantissa = takeWhile (\<lambda>c. c \<noteq> CHR ''E'') s;
          exponent = dropWhile (\<lambda>c. c \<noteq> CHR ''E'') s;
          ip = takeWhile (\<lambda>c. c \<noteq> CHR ''.'') mantissa;
          rest = dropWhile (\<lambda>c. c \<noteq> CHR ''.'') mantissa;
          fp = drop 1 rest;
          mantissa_ok = (if rest = [] then digitpart ip
                         else (ip = [] \<and> digitpart fp) \<or> (digitpart ip \<and> (fp = [] \<or> digitpart fp)));
          exponent_ok = (exponent = [] \<or> digitpart (drop 1 exponent))
      in if mantissa_ok \<and> exponent_ok
         then Some ((real (digits_value ip)
                      + real (digits_value fp) / 10 ^ length (filter isdigit_char fp))
                    * 10 ^ digits_value (drop 1 exponent))
         else None)"

definition letter_values :: "char \<Rightarrow> real option" where
  "letter_values c =
     (if c = CHR ''A'' then Some 0.0
      else if c = CHR ''B'' then Some 0.25
      else if c = CHR ''C'' then Some 0.5
      else if c = CHR ''D'' then Some 0.75
      else None)"

text \<open>\<^verbatim>\<open>rating[2:].split()\<close> and its first part, \<^verbatim>\<open>''\<close> when there is none.\<close>

definition first_part :: "string \<Rightarrow> string" where
  "first_part s = takeWhile (\<lambda>c. \<not> isspace c) (dropWhile isspace s)"

definition parse_rating :: "cell \<Rightarrow> real" where
  "parse_rating rating_str =
     (case rating_str of
        NaN \<Rightarrow> 0
      | Str s \<Rightarrow>
          if s = [] then 0
          else
            (let rating = remove_modifiers (upper (strip s))
             in if prefix ''5.'' rating then
                  (let base_rating = first_part (drop 2 rating);
                       clean_rating = filter (\<lambda>c. c \<noteq> CHR ''+'' \<and> c \<noteq> CHR ''-'') base_rating
                   in if isdigit clean_rating then real (int_of_digits clean_rating)
                      else if CHR ''.'' \<in> set clean_rating then
                        (case py_float clean_rating of None \<Rightarrow> 0 | Some num_rating \<Rightarrow> num_rating)
                      else if 2 \<le> length clean_rating \<and> isdigit (butlast clean_rating) then
                        (let base_num = int_of_digits (butlast clean_rating);
                             letter = last clean_rating
                         in real base_num
                            + (case letter_values letter of Some v \<Rightarrow> v | None \<Rightarrow> 0))
                      else 0)
                else 0))"

definition calculate_difficulty_score :: "cell \<Rightarrow> int" where
  "calculate_difficulty_score rating_str =
     (let difficulty = parse_rating rating_str
      in if difficulty = 0 then 0
         else if difficulty \<ge> 7 \<and> difficulty \<le> 10.75 then 2
         else if difficulty < 7 then 1
         else 0)"

definition calculate_route_type_score :: "cell \<Rightarrow> int" where
  "calculate_route_type_score route_type_str =
     (case route_type_str of
        NaN \<Rightarrow> 0
      | Str s \<Rightarrow>
          (let route_type = strip s
           in if sublist ''Sport'' route_type then 1
              else if sublist ''Multi-Pitch'' route_type then - 1
              else 0))"

definition categorize_grade :: "cell \<Rightarrow> string" where
  "categorize_grade rating_str =
     (let difficulty = parse_rating rating_str
      in if difficulty = 0 then ''unknown''
         else if difficulty \<le> 6.75 then ''5.0-5.6''
         else if difficulty \<ge> 7 \<and> difficulty \<le> 8.75 then ''5.7-5.8''
         else if difficulty \<ge> 9 \<and> difficulty \<le> 10.75 then ''5.9-5.10''
         else if difficulty \<ge> 11 \<and> difficulty \<le> 11.75 then ''5.11''
         else if difficulty \<ge> 12 then ''5.12+''
         else ''unknown'')"

subsection \<open>Area aggregation in \<^verbatim>\<open>create_area_summary_scenic\<close>\<close>




text \<open>
  Their reading in exact arithmetic: the arithmetic mean, and rounding of \<open>x * 10^4\<close> to
  the nearest integer, a tie to the even one.
\<close>

definition rint :: "real \<Rightarrow> int" where
  "rint x =
     (let f = \<lfloor>x\<rfloor>; r = x - of_int f
      in if r < 1 / 2 then f else if 1 / 2 < r then f + 1 else if even f then f else f + 1)"












subsection \<open>The projector in double-precision arithmetic\<close>

text \<open>
  The functions above read the arithmetic of the program as exact. What the program
  raises depends on the rounding, the overflow and the underflow of its floats, so the
  distance primitive and the two projectors are given a second time over IEEE 754
  binary64 values. A finite value is \<open>D x\<close>; the sign of a zero is not kept. The result
  of \<open>+\<close>, \<open>-\<close>, \<open>*\<close>, \<open>/\<close> and \<open>sqrt\<close> is the exact result rounded to the nearest
  double, a tie to the even one, and infinite from \<open>2^1024\<close> on.
\<close>

datatype double = D real | DInf | DNegInf | DNaN

definition ulp_exponent :: "real \<Rightarrow> int" where
  "ulp_exponent x = (if \<bar>x\<bar> < 2 powi (- 1022) then - 1074 else \<lfloor>log 2 \<bar>x\<bar>\<rfloor> - 52)"

definition nearest :: "real \<Rightarrow> real" where
  "nearest x = of_int (rint (x / 2 powi ulp_exponent x)) * 2 powi ulp_exponent x"

definition round_double :: "real \<Rightarrow> double" where
  "round_double x =
     (let y = nearest x
      in if 2 powi 1024 \<le> \<bar>y\<bar> then (if 0 < x then DInf else DNegInf) else D y)"

fun fneg :: "double \<Rightarrow> double" where
  "fneg (D x) = D (- x)"
| "fneg DInf = DNegInf"
| "fneg DNegInf = DInf"
| "fneg DNaN = DNaN"

fun fadd :: "double \<Rightarrow> double \<Rightarrow> double" where
  "fadd (D x) (D y) = round_double (x + y)"
| "fadd DNaN _ = DNaN"
| "fadd _ DNaN = DNaN"
| "fadd DInf DNegInf = DNaN"
| "fadd DNegInf DInf = DNaN"
| "fadd DInf _ = DInf"
| "fadd _ DInf = DInf"
| "fadd DNegInf _ = DNegInf"
| "fadd _ DNegInf = DNegInf"

definition fsub :: "double \<Rightarrow> double \<Rightarrow> double" where
  "fsub a b = fadd a (fneg b)"

fun fmul :: "double \<Rightarrow> double \<Rightarrow> double" where
  "fmul (D x) (D y) = round_double (x * y)"
| "fmul DNaN _ = DNaN"
| "fmul _ DNaN = DNaN"
| "fmul (D x) i = (if x = 0 then DNaN else if 0 < x then i else fneg i)"
| "fmul i (D y) = (if y = 0 then DNaN else if 0 < y then i else fneg i)"
| "fmul i j = (if i = j then DInf else DNegInf)"

text \<open>Float division raises \<^verbatim>\<open>ZeroDivisionError\<close> when the divisor is zero.\<close>

fun fdiv :: "double \<Rightarrow> double \<Rightarrow> py_error + double" where
  "fdiv a (D y) =
     (if y = 0 then Inl ZeroDivisionError
      else case a of
             D x \<Rightarrow> Inr (round_double (x / y))
           | DNaN \<Rightarrow> Inr DNaN
           | i \<Rightarrow> Inr (if 0 < y then i else fneg i))"
| "fdiv a DNaN = Inr DNaN"
| "fdiv a i = (case a of D x \<Rightarrow> Inr (D 0) | _ \<Rightarrow> Inr DNaN)"

text \<open>\<open><\<close> on floats: false as soon as one side is NaN.\<close>

fun flt :: "double \<Rightarrow> double \<Rightarrow> bool" where
  "flt (D x) (D y) = (x < y)"
| "flt DNaN _ = False"
| "flt _ DNaN = False"
| "flt _ DNegInf = False"
| "flt DNegInf _ = True"
| "flt DInf _ = False"
| "flt _ DInf = True"

definition fle :: "double \<Rightarrow> double \<Rightarrow> bool" where
  "fle a b = (flt a b \<or> (a = b \<and> a \<noteq> DNaN))"

text \<open>
  The functions of the C library whose values are not fixed by the standard are
  parameters: \<^verbatim>\<open>sin\<close> and \<^verbatim>\<open>cos\<close> on a finite argument, \<^verbatim>\<open>x ** 2\<close> and \<^verbatim>\<open>atan2\<close>.
  Python adds the errors: \<^verbatim>\<open>math.sin\<close> and \<^verbatim>\<open>math.cos\<close> raise \<^verbatim>\<open>ValueError\<close> on an
  infinite argument and \<^verbatim>\<open>math.sqrt\<close> on a negative one; NaN goes through.
\<close>

record libm =
  l_sin :: "real \<Rightarrow> real"
  l_cos :: "real \<Rightarrow> real"
  l_pow2 :: "double \<Rightarrow> py_error + double"
  l_atan2 :: "double \<Rightarrow> double \<Rightarrow> double"

definition math_sin :: "libm \<Rightarrow> double \<Rightarrow> py_error + double" where
  "math_sin L x =
     (case x of D r \<Rightarrow> Inr (D (l_sin L r)) | DNaN \<Rightarrow> Inr DNaN | _ \<Rightarrow> Inl ValueError)"

definition math_cos :: "libm \<Rightarrow> double \<Rightarrow> py_error + double" where
  "math_cos L x =
     (case x of D r \<Rightarrow> Inr (D (l_cos L r)) | DNaN \<Rightarrow> Inr DNaN | _ \<Rightarrow> Inl ValueError)"

definition math_sqrt :: "double \<Rightarrow> py_error + double" where
  "math_sqrt x =
     (case x of
        D r \<Rightarrow> if r < 0 then Inl ValueError else Inr (round_double (sqrt r))
      | DInf \<Rightarrow> Inr DInf
      | DNegInf \<Rightarrow> Inl ValueError
      | DNaN \<Rightarrow> Inr DNaN)"

text \<open>\<^verbatim>\<open>math.radians\<close> multiplies by the double nearest to \<open>pi / 180\<close>.\<close>

definition DEG :: real where
  "DEG = 5030569068109113 / 2 ^ 58"

definition radians_fp :: "double \<Rightarrow> double" where
  "radians_fp x = fmul x (D DEG)"

text \<open>Sequencing: the first error ends the computation.\<close>

definition then_e :: "'e + 'a \<Rightarrow> ('a \<Rightarrow> 'e + 'b) \<Rightarrow> 'e + 'b" where
  "then_e r f = (case r of Inl e \<Rightarrow> Inl e | Inr v \<Rightarrow> f v)"

text \<open>The intermediate term \<^verbatim>\<open>a\<close>, its operands evaluated from left to right.\<close>

definition haversine_fp :: "libm \<Rightarrow> double \<Rightarrow> double \<Rightarrow> double \<Rightarrow> double \<Rightarrow> py_error + double" where
  "haversine_fp L lat1 lon1 lat2 lon2 =
     (let lat1_rad = radians_fp lat1;
          lat2_rad = radians_fp lat2;
          delta_lat = radians_fp (fsub lat2 lat1);
          delta_lon = radians_fp (fsub lon2 lon1)
      in then_e (fdiv delta_lat (D 2)) (\<lambda>h1.
         then_e (math_sin L h1) (\<lambda>s1.
         then_e (l_pow2 L s1) (\<lambda>p1.
         then_e (math_cos L lat1_rad) (\<lambda>c1.
         then_e (math_cos L lat2_rad) (\<lambda>c2.
         then_e (fdiv delta_lon (D 2)) (\<lambda>h2.
         then_e (math_sin L h2) (\<lambda>s2.
         then_e (l_pow2 L s2) (\<lambda>p2.
           Inr (fadd p1 (fmul (fmul c1 c2) p2)))))))))))"

definition calculate_distance_fp ::
  "libm \<Rightarrow> double \<Rightarrow> double \<Rightarrow> double \<Rightarrow> double \<Rightarrow> py_error + double" where
  "calculate_distance_fp L lat1 lon1 lat2 lon2 =
     then_e (haversine_fp L lat1 lon1 lat2 lon2) (\<lambda>a.
     then_e (math_sqrt a) (\<lambda>sa.
     then_e (math_sqrt (fsub (D 1) a)) (\<lambda>sb.
       Inr (fmul (D 3959) (fmul (D 2) (l_atan2 L sa sb))))))"

text \<open>
  \<^verbatim>\<open>max(0, min(1, t))\<close>: \<^verbatim>\<open>min\<close> keeps 1 unless \<^verbatim>\<open>t < 1\<close>, and \<^verbatim>\<open>max\<close> keeps 0 unless
  the result is greater than 0.
\<close>

definition clamp01 :: "double \<Rightarrow> double" where
  "clamp01 t0 = (let t1 = (if flt t0 (D 1) then t0 else D 1) in if flt (D 0) t1 then t1 else D 0)"

definition distance_to_line_segment_fp ::
  "libm \<Rightarrow> double \<Rightarrow> double \<Rightarrow> double \<Rightarrow> double \<Rightarrow> double \<Rightarrow> double
     \<Rightarrow> py_error + (double \<times> double)" where
  "distance_to_line_segment_fp L px py x1 y1 x2 y2 =
     (let dx = fsub x2 x1;
          dy = fsub y2 y1
      in if dx = D 0 \<and> dy = D 0 then
           then_e (calculate_distance_fp L px py x1 y1) (\<lambda>dist0. Inr (dist0, D 0))
         else
           then_e (fdiv (fadd (fmul (fsub px x1) dx) (fmul (fsub py y1) dy))
                        (fadd (fmul dx dx) (fmul dy dy))) (\<lambda>t0.
             (let t = clamp01 t0;
                  closest_x = fadd x1 (fmul t dx);
                  closest_y = fadd y1 (fmul t dy)
              in then_e (calculate_distance_fp L px py closest_x closest_y) (\<lambda>distance.
                   Inr (distance, t)))))"

type_synonym waypoint_fp = "double \<times> double \<times> string"

definition segment_result_fp ::
  "libm \<Rightarrow> waypoint_fp list \<Rightarrow> double \<Rightarrow> double \<Rightarrow> nat \<Rightarrow> py_error + (double \<times> double)" where
  "segment_result_fp L ws lat lon i =
     (case ws ! i of (wp1_lat, wp1_lon, _) \<Rightarrow>
      case ws ! (i + 1) of (wp2_lat, wp2_lon, _) \<Rightarrow>
        distance_to_line_segment_fp L lat lon wp1_lat wp1_lon wp2_lat wp2_lon)"

fun path_loop_fp ::
  "libm \<Rightarrow> waypoint_fp list \<Rightarrow> double \<Rightarrow> double \<Rightarrow> nat list \<Rightarrow> double \<times> nat \<times> double
     \<Rightarrow> py_error + (double \<times> nat \<times> double)" where
  "path_loop_fp L ws lat lon [] st = Inr st"
| "path_loop_fp L ws lat lon (i # is)
     (min_distance, closest_segment, closest_position_on_segment) =
     then_e (segment_result_fp L ws lat lon i) (\<lambda>(segment_distance, position_on_segment).
       if flt segment_distance min_distance
       then path_loop_fp L ws lat lon is (segment_distance, i, position_on_segment)
       else path_loop_fp L ws lat lon is
              (min_distance, closest_segment, closest_position_on_segment))"

definition closest_on_path_fp ::
  "libm \<Rightarrow> waypoint_fp list \<Rightarrow> double \<Rightarrow> double \<Rightarrow> py_error + (double \<times> double)" where
  "closest_on_path_fp L ws lat lon =
     then_e (path_loop_fp L ws lat lon [0 ..< length ws - 1] (DInf, 0, D 0))
       (\<lambda>(min_distance, closest_segment, closest_position_on_segment).
          (let total_segments = int (length ws) - 1
           in then_e (fdiv (fadd (D (real closest_segment)) closest_position_on_segment)
                           (D (real_of_int total_segments)))
                (\<lambda>path_position. Inr (path_position, min_distance))))"

text \<open>
  A library for the evaluations below: every function correctly rounded, \<^verbatim>\<open>x ** 2\<close> with
  Python's \<^verbatim>\<open>OverflowError\<close>, and \<^verbatim>\<open>atan2\<close> given on finite arguments (NaN otherwise).
\<close>

definition libm0 :: libm where
  "libm0 =
     \<lparr>l_sin = (\<lambda>x. nearest (sin x)),
      l_cos = (\<lambda>x. nearest (cos x)),
      l_pow2 = (\<lambda>x. case x of
                  D r \<Rightarrow> (case round_double (r * r) of D p \<Rightarrow> Inr (D p) | _ \<Rightarrow> Inl OverflowError)
                | DNaN \<Rightarrow> Inr DNaN
                | _ \<Rightarrow> Inr DInf),
      l_atan2 = (\<lambda>y x. case (y, x) of (D a, D b) \<Rightarrow> round_double (atan2 a b) | _ \<Rightarrow> DNaN)\<rparr>"

subsection \<open>Example tables\<close>

text \<open>
  A route file of three rows whose first row has the coordinate \<open>(0, 0)\<close>, the marker of
  an unknown location; the other two routes lie on the first and the second waypoint.
\<close>

definition ex_csv :: "csv_row list" where
  "ex_csv =
     [\<lparr>csv_Route = ''Unlocated'', csv_Area = Some ''Red Rocks'',
       csv_Canyon = Some ''Calico Basin'', csv_Latitude = Some 0, csv_Longitude = Some 0\<rparr>,
      \<lparr>csv_Route = ''At The Entrance'', csv_Area = Some ''Red Rocks'',
       csv_Canyon = Some ''Calico Basin'',
       csv_Latitude = Some 36.1588, csv_Longitude = Some (-115.4264)\<rparr>,
      \<lparr>csv_Route = ''Early Drive'', csv_Area = Some ''Red Rocks'',
       csv_Canyon = Some ''Calico Basin'',
       csv_Latitude = Some 36.1450, csv_Longitude = Some (-115.4450)\<rparr>]"




section \<open>Properties of the distance primitive\<close>

lemma sin_half_sq: "(sin (x / 2))\<^sup>2 = (1 - cos x) / 2" for x :: real
proof -
  define h where "h = x / 2"
  have x: "x = 2 * h" by (simp add: h_def)
  have "cos (2 * h) = 1 - 2 * (sin h)\<^sup>2" by (rule cos_double_sin)
  then show ?thesis unfolding x by simp
qed

lemma haversine_a_alt:
  "haversine_a lat1 lon1 lat2 lon2 =
     (1 - cos (radians lat2 - radians lat1)) / 2
     + (cos (radians lat1 - radians lat2) + cos (radians lat1 + radians lat2)) / 2
       * (sin (radians (lon2 - lon1) / 2))\<^sup>2"
proof -
  have d: "radians (lat2 - lat1) = radians lat2 - radians lat1"
    by (simp add: radians_def field_simps)
  have c: "cos (radians lat1) * cos (radians lat2)
             = (cos (radians lat1 - radians lat2) + cos (radians lat1 + radians lat2)) / 2"
    by (simp add: cos_add cos_diff)
  show ?thesis
    unfolding haversine_a_def Let_def d c sin_half_sq [of "radians lat2 - radians lat1"] ..
qed

lemma haversine_a_bounds:
  "0 \<le> haversine_a lat1 lon1 lat2 lon2 \<and> haversine_a lat1 lon1 lat2 lon2 \<le> 1"
proof -
  define c1 where "c1 = cos (radians lat1 - radians lat2)"
  define c2 where "c2 = cos (radians lat1 + radians lat2)"
  define s where "s = (sin (radians (lon2 - lon1) / 2))\<^sup>2"
  have c1': "cos (radians lat2 - radians lat1) = c1"
    unfolding c1_def using cos_minus [of "radians lat1 - radians lat2"] by simp
  have a: "haversine_a lat1 lon1 lat2 lon2 = (1 - c1) / 2 + (c1 + c2) / 2 * s"
    unfolding haversine_a_alt c1' by (simp add: c1_def c2_def s_def)
  have b1: "- 1 \<le> c1" "c1 \<le> 1" by (simp_all add: c1_def)
  have b2: "- 1 \<le> c2" "c2 \<le> 1" by (simp_all add: c2_def)
  have s0: "0 \<le> s" by (simp add: s_def)
  have s1: "0 \<le> 1 - s"
    unfolding s_def using abs_sin_le_one [of "radians (lon2 - lon1) / 2"]
    by (simp add: abs_square_le_1)
  have e: "(1 - c1) / 2 + (c1 + c2) / 2 * s = 1 / 2 - c1 * (1 - s) / 2 + c2 * s / 2"
    by (simp add: field_simps)
  have m1: "c1 * (1 - s) \<le> 1 * (1 - s)" "(- 1) * (1 - s) \<le> c1 * (1 - s)"
    by (rule mult_right_mono [OF b1(2) s1], rule mult_right_mono [OF b1(1) s1])
  have m2: "c2 * s \<le> 1 * s" "(- 1) * s \<le> c2 * s"
    by (rule mult_right_mono [OF b2(2) s0], rule mult_right_mono [OF b2(1) s0])
  show ?thesis
    unfolding a e using m1 m2 by simp
qed

lemma atan2_nonneg: "0 \<le> y \<Longrightarrow> 0 \<le> x \<Longrightarrow> 0 \<le> atan2 y x"
  by (simp add: atan2_def)

lemma atan2_eq_0_iff: "0 \<le> y \<Longrightarrow> 0 \<le> x \<Longrightarrow> atan2 y x = 0 \<longleftrightarrow> y = 0"
  using pi_gt_zero by (auto simp: atan2_def)

lemma calculate_distance_eq:
  "calculate_distance lat1 lon1 lat2 lon2 =
     Inr (R * (2 * atan2 (sqrt (haversine_a lat1 lon1 lat2 lon2))
                         (sqrt (1 - haversine_a lat1 lon1 lat2 lon2))))"
  using haversine_a_bounds [of lat1 lon1 lat2 lon2]
  by (simp add: calculate_distance_def distance_from_a_def py_sqrt_def)

lemma calculate_distance_nonneg:
  "calculate_distance lat1 lon1 lat2 lon2 = Inr d \<Longrightarrow> 0 \<le> d"
  using haversine_a_bounds [of lat1 lon1 lat2 lon2]
  by (auto simp: calculate_distance_eq R_def intro!: atan2_nonneg)

lemma calculate_distance_zero_iff:
  "calculate_distance lat1 lon1 lat2 lon2 = Inr 0 \<longleftrightarrow> haversine_a lat1 lon1 lat2 lon2 = 0"
  using haversine_a_bounds [of lat1 lon1 lat2 lon2]
  by (simp add: calculate_distance_eq R_def atan2_eq_0_iff)

lemma calculate_distance_self: "calculate_distance lat lon lat lon = Inr 0"
  by (simp add: calculate_distance_zero_iff haversine_a_def radians_def)

lemma radians_bound: "\<bar>x\<bar> < k \<Longrightarrow> \<bar>radians x / 2\<bar> < k * pi / 360"
proof -
  assume a: "\<bar>x\<bar> < k"
  have "\<bar>radians x / 2\<bar> = \<bar>x\<bar> * (pi / 360)"
    by (simp add: radians_def abs_mult)
  also have "\<dots> < k * (pi / 360)"
    using a by (intro mult_strict_right_mono) simp_all
  finally show ?thesis by simp
qed

lemma sin_radians_half_zero:
  assumes "\<bar>x\<bar> < 360" and "sin (radians x / 2) = 0"
  shows "x = 0"
proof -
  have b: "\<bar>radians x / 2\<bar> < pi"
    using radians_bound [OF assms(1)] by simp
  have "- pi < radians x / 2" "radians x / 2 < pi"
    using b by (simp_all add: abs_less_iff)
  then have "radians x / 2 = 0"
    using assms(2) by (rule sin_eq_0_pi)
  then show ?thesis by (simp add: radians_def)
qed

lemma cos_radians_pos:
  assumes "\<bar>x\<bar> < 90"
  shows "0 < cos (radians x)"
proof -
  have "\<bar>radians x / 2\<bar> < 90 * pi / 360"
    by (rule radians_bound [OF assms])
  then have "- (pi / 2) < radians x" "radians x < pi / 2"
    by (simp_all add: abs_less_iff)
  then show ?thesis by (rule cos_gt_zero_pi)
qed


lemma haversine_a_zero_iff:
  assumes "\<bar>lat1\<bar> < 90" "\<bar>lat2\<bar> < 90" "\<bar>lon2 - lon1\<bar> < 360"
  shows "haversine_a lat1 lon1 lat2 lon2 = 0 \<longleftrightarrow> lat1 = lat2 \<and> lon1 = lon2"
proof
  assume z: "haversine_a lat1 lon1 lat2 lon2 = 0"
  define p where "p = (sin (radians (lat2 - lat1) / 2))\<^sup>2"
  define q where "q = (sin (radians (lon2 - lon1) / 2))\<^sup>2"
  define c where "c = cos (radians lat1) * cos (radians lat2)"
  have c: "0 < c"
    unfolding c_def using cos_radians_pos [OF assms(1)] cos_radians_pos [OF assms(2)] by simp
  have p: "0 \<le> p" and q: "0 \<le> q" by (simp_all add: p_def q_def)
  have "p + c * q = 0" using z by (simp add: haversine_a_def p_def q_def c_def)
  moreover have "0 \<le> c * q" using c q by simp
  ultimately have "p = 0" "c * q = 0" using p by linarith+
  then have "p = 0" "q = 0" using c by simp_all
  then have s: "sin (radians (lat2 - lat1) / 2) = 0" "sin (radians (lon2 - lon1) / 2) = 0"
    by (simp_all add: p_def q_def)
  have "\<bar>lat2 - lat1\<bar> < 360" using assms(1,2) by linarith
  then have "lat2 - lat1 = 0" using s(1) by (rule sin_radians_half_zero)
  moreover have "lon2 - lon1 = 0" using assms(3) s(2) by (rule sin_radians_half_zero)
  ultimately show "lat1 = lat2 \<and> lon1 = lon2" by simp
next
  assume "lat1 = lat2 \<and> lon1 = lon2"
  then show "haversine_a lat1 lon1 lat2 lon2 = 0"
    by (simp add: haversine_a_def radians_def)
qed







section \<open>The segment projector\<close>


lemma sum_sq_zero: "dx * dx + dy * dy = 0 \<longleftrightarrow> dx = 0 \<and> dy = 0" for dx dy :: real
  using sum_squares_eq_zero_iff [of dx dy] by simp

lemma distance_to_line_segment_total:
  "\<exists>d t. distance_to_line_segment px py x1 y1 x2 y2 = Inr (d, t) \<and> 0 \<le> d \<and> 0 \<le> t \<and> t \<le> 1"
proof (cases "x2 - x1 = 0 \<and> y2 - y1 = 0")
  case True
  then show ?thesis
    using haversine_a_bounds [of px py x1 y1]
    by (simp add: distance_to_line_segment_def calculate_distance_eq R_def atan2_nonneg)
next
  case False
  then have nz: "(x2 - x1) * (x2 - x1) + (y2 - y1) * (y2 - y1) \<noteq> 0"
    using sum_sq_zero [of "x2 - x1" "y2 - y1"] by blast
  define t where "t = max 0 (min 1 (((px - x1) * (x2 - x1) + (py - y1) * (y2 - y1))
                         / ((x2 - x1) * (x2 - x1) + (y2 - y1) * (y2 - y1))))"
  have t: "0 \<le> t" "t \<le> 1" by (simp_all add: t_def)
  obtain d where d: "calculate_distance px py (x1 + t * (x2 - x1)) (y1 + t * (y2 - y1)) = Inr d"
    by (simp add: calculate_distance_eq)
  have "distance_to_line_segment px py x1 y1 x2 y2 = Inr (d, t)"
    unfolding distance_to_line_segment_def Let_def py_div_def
    by (simp only: False nz if_False sum.case d flip: t_def)
  moreover have "0 \<le> d" using d by (rule calculate_distance_nonneg)
  ultimately show ?thesis using t by blast
qed

lemma segment_result_total:
  "\<exists>d t. segment_result ws lat lon i = Inr (d, t) \<and> 0 \<le> d \<and> 0 \<le> t \<and> t \<le> 1"
  unfolding segment_result_def
  by (cases "ws ! i"; cases "ws ! (i + 1)") (simp add: distance_to_line_segment_total)

lemma path_loop_Cons:
  "path_loop ws lat lon (i # is) (m0, k0, t0) =
     (case segment_result ws lat lon i of
        Inl e \<Rightarrow> Inl e
      | Inr (d, t) \<Rightarrow> if lt_efloat d m0 then path_loop ws lat lon is (Fin d, i, t)
                      else path_loop ws lat lon is (m0, k0, t0))"
  unfolding segment_result_def
  by (cases "ws ! i"; cases "ws ! (i + 1)") (simp split: sum.splits prod.splits)

lemma lt_efloat_trans: "d < d' \<Longrightarrow> lt_efloat d' m \<Longrightarrow> lt_efloat d m"
  by (cases m) simp_all

lemma lt_efloat_not: "\<not> lt_efloat d' m \<Longrightarrow> lt_efloat d m \<Longrightarrow> d < d'"
  by (cases m) simp_all

lemma segment_result_eq: "segment_result ws lat lon i = Inr (seg_d ws lat lon i, seg_t ws lat lon i)"
  using segment_result_total [of ws lat lon i] by (auto simp: seg_d_def seg_t_def)

lemma path_loop_inv:
  "\<exists>m k t. path_loop ws lat lon is (m0, k0, t0) = Inr (m, k, t) \<and>
     ((m, k, t) = (m0, k0, t0) \<and> (\<forall>j\<in>set is. \<not> lt_efloat (seg_d ws lat lon j) m0)
      \<or> (\<exists>pre post. is = pre @ k # post \<and> m = Fin (seg_d ws lat lon k) \<and> t = seg_t ws lat lon k
            \<and> lt_efloat (seg_d ws lat lon k) m0
            \<and> (\<forall>j\<in>set pre. seg_d ws lat lon k < seg_d ws lat lon j)
            \<and> (\<forall>j\<in>set post. seg_d ws lat lon k \<le> seg_d ws lat lon j)))"
proof (induction "is" arbitrary: m0 k0 t0)
  case Nil
  then show ?case by simp
next
  case (Cons i "is")
  let ?d = "seg_d ws lat lon"
  let ?t = "seg_t ws lat lon"
  show ?case
  proof (cases "lt_efloat (?d i) m0")
    case True
    then have step: "path_loop ws lat lon (i # is) (m0, k0, t0) = path_loop ws lat lon is (Fin (?d i), i, ?t i)"
      by (subst path_loop_Cons) (simp add: segment_result_eq)
    from Cons.IH [of "Fin (?d i)" i "?t i"]
    obtain m k t where r: "path_loop ws lat lon is (Fin (?d i), i, ?t i) = Inr (m, k, t)"
      and c: "(m, k, t) = (Fin (?d i), i, ?t i) \<and> (\<forall>j\<in>set is. \<not> lt_efloat (?d j) (Fin (?d i)))
      \<or> (\<exists>pre post. is = pre @ k # post \<and> m = Fin (?d k) \<and> t = ?t k
            \<and> lt_efloat (?d k) (Fin (?d i))
            \<and> (\<forall>j\<in>set pre. ?d k < ?d j)
            \<and> (\<forall>j\<in>set post. ?d k \<le> ?d j))"
      by blast
    from c show ?thesis
    proof
      assume a: "(m, k, t) = (Fin (?d i), i, ?t i) \<and> (\<forall>j\<in>set is. \<not> lt_efloat (?d j) (Fin (?d i)))"
      then have "i # is = [] @ k # is \<and> m = Fin (?d k) \<and> t = ?t k \<and> lt_efloat (?d k) m0
            \<and> (\<forall>j\<in>set []. ?d k < ?d j) \<and> (\<forall>j\<in>set is. ?d k \<le> ?d j)"
        using True by (auto simp: not_less)
      then show ?thesis unfolding step r by blast
    next
      assume "\<exists>pre post. is = pre @ k # post \<and> m = Fin (?d k) \<and> t = ?t k
            \<and> lt_efloat (?d k) (Fin (?d i))
            \<and> (\<forall>j\<in>set pre. ?d k < ?d j)
            \<and> (\<forall>j\<in>set post. ?d k \<le> ?d j)"
      then obtain pre post where b: "is = pre @ k # post" "m = Fin (?d k)" "t = ?t k"
            "?d k < ?d i" "\<forall>j\<in>set pre. ?d k < ?d j" "\<forall>j\<in>set post. ?d k \<le> ?d j"
        by auto
      have "lt_efloat (?d k) m0" using b(4) True by (rule lt_efloat_trans)
      then have "i # is = (i # pre) @ k # post \<and> m = Fin (?d k) \<and> t = ?t k \<and> lt_efloat (?d k) m0
            \<and> (\<forall>j\<in>set (i # pre). ?d k < ?d j) \<and> (\<forall>j\<in>set post. ?d k \<le> ?d j)"
        using b by simp
      then show ?thesis unfolding step r by blast
    qed
  next
    case False
    then have step: "path_loop ws lat lon (i # is) (m0, k0, t0) = path_loop ws lat lon is (m0, k0, t0)"
      by (subst path_loop_Cons) (simp add: segment_result_eq)
    from Cons.IH [of m0 k0 t0]
    obtain m k t where r: "path_loop ws lat lon is (m0, k0, t0) = Inr (m, k, t)"
      and c: "(m, k, t) = (m0, k0, t0) \<and> (\<forall>j\<in>set is. \<not> lt_efloat (?d j) m0)
      \<or> (\<exists>pre post. is = pre @ k # post \<and> m = Fin (?d k) \<and> t = ?t k
            \<and> lt_efloat (?d k) m0
            \<and> (\<forall>j\<in>set pre. ?d k < ?d j)
            \<and> (\<forall>j\<in>set post. ?d k \<le> ?d j))"
      by blast
    from c show ?thesis
    proof
      assume "(m, k, t) = (m0, k0, t0) \<and> (\<forall>j\<in>set is. \<not> lt_efloat (?d j) m0)"
      then have "(m, k, t) = (m0, k0, t0) \<and> (\<forall>j\<in>set (i # is). \<not> lt_efloat (?d j) m0)"
        using False by simp
      then show ?thesis unfolding step r by blast
    next
      assume "\<exists>pre post. is = pre @ k # post \<and> m = Fin (?d k) \<and> t = ?t k
            \<and> lt_efloat (?d k) m0
            \<and> (\<forall>j\<in>set pre. ?d k < ?d j)
            \<and> (\<forall>j\<in>set post. ?d k \<le> ?d j)"
      then obtain pre post where b: "is = pre @ k # post" "m = Fin (?d k)" "t = ?t k"
            "lt_efloat (?d k) m0" "\<forall>j\<in>set pre. ?d k < ?d j" "\<forall>j\<in>set post. ?d k \<le> ?d j"
        by auto
      have "?d k < ?d i" using False b(4) by (rule lt_efloat_not)
      then have "i # is = (i # pre) @ k # post \<and> m = Fin (?d k) \<and> t = ?t k \<and> lt_efloat (?d k) m0
            \<and> (\<forall>j\<in>set (i # pre). ?d k < ?d j) \<and> (\<forall>j\<in>set post. ?d k \<le> ?d j)"
        using b by simp
      then show ?thesis unfolding step r by blast
    qed
  qed
qed

lemma upt_split:
  "[a..<n] = pre @ k # post \<Longrightarrow> pre = [a..<k] \<and> post = [Suc k..<n] \<and> a \<le> k \<and> k < n"
proof (induction pre arbitrary: a)
  case Nil
  then show ?case by (auto simp: upt_eq_Cons_conv)
next
  case (Cons x pre)
  from Cons.prems have h: "a < n" "a = x" "[a + 1..<n] = pre @ k # post"
    by (auto simp: upt_eq_Cons_conv)
  from Cons.IH [OF h(3)] have i: "pre = [a + 1..<k]" "post = [Suc k..<n]" "a + 1 \<le> k" "k < n"
    by simp_all
  have "x # pre = [a..<k]" using h(2) i(1,3) by (simp add: upt_conv_Cons)
  then show ?case using i by simp
qed

section \<open>The path projector\<close>

lemma seg_d_nonneg: "0 \<le> seg_d ws lat lon i"
  using segment_result_total [of ws lat lon i] by (auto simp: seg_d_def)

lemma seg_t_range: "0 \<le> seg_t ws lat lon i \<and> seg_t ws lat lon i \<le> 1"
  using segment_result_total [of ws lat lon i] by (auto simp: seg_t_def)

lemma closest_on_path_char:
  assumes "2 \<le> length ws"
  shows "\<exists>k. k < length ws - 1
      \<and> closest_on_path ws lat lon
          = Inr ((real k + seg_t ws lat lon k) / real (length ws - 1), Fin (seg_d ws lat lon k))
      \<and> (\<forall>j<k. seg_d ws lat lon k < seg_d ws lat lon j)
      \<and> (\<forall>j<length ws - 1. seg_d ws lat lon k \<le> seg_d ws lat lon j)"
proof -
  let ?n = "length ws - 1"
  let ?d = "seg_d ws lat lon"
  let ?t = "seg_t ws lat lon"
  have n: "0 < ?n" using assms by simp
  from path_loop_inv [of ws lat lon "[0..<?n]" PInf 0 0]
  obtain m k t where r: "path_loop ws lat lon [0..<?n] (PInf, 0, 0) = Inr (m, k, t)"
    and c: "(m, k, t) = (PInf, 0, 0) \<and> (\<forall>j\<in>set [0..<?n]. \<not> lt_efloat (?d j) PInf)
      \<or> (\<exists>pre post. [0..<?n] = pre @ k # post \<and> m = Fin (?d k) \<and> t = ?t k
            \<and> lt_efloat (?d k) PInf
            \<and> (\<forall>j\<in>set pre. ?d k < ?d j)
            \<and> (\<forall>j\<in>set post. ?d k \<le> ?d j))"
    by blast
  have "0 \<in> set [0..<?n]" using n by simp
  then have "\<not> (\<forall>j\<in>set [0..<?n]. \<not> lt_efloat (?d j) PInf)" by (metis lt_efloat.simps(1))
  with c obtain pre post where b: "[0..<?n] = pre @ k # post" "m = Fin (?d k)" "t = ?t k"
      "\<forall>j\<in>set pre. ?d k < ?d j" "\<forall>j\<in>set post. ?d k \<le> ?d j"
    by blast
  from upt_split [OF b(1)] have s: "pre = [0..<k]" "post = [Suc k..<?n]" "k < ?n"
    by simp_all
  have lo: "\<forall>j<k. ?d k < ?d j" using b(4) s(1) by simp
  have hi: "?d k \<le> ?d j" if "j < ?n" for j
  proof -
    consider "j < k" | "j = k" | "Suc k \<le> j" by linarith
    then show ?thesis
    proof cases
      case 1 then show ?thesis using lo by (simp add: less_imp_le)
    next
      case 2 then show ?thesis by simp
    next
      case 3 then show ?thesis using b(5) s(2) that by simp
    qed
  qed
  have tot: "real_of_int (int (length ws) - 1) = real ?n" using assms by (simp add: of_nat_diff)
  have "real ?n \<noteq> 0" using n by simp
  then have "closest_on_path ws lat lon = Inr ((real k + ?t k) / real ?n, Fin (?d k))"
    unfolding closest_on_path_def r Let_def tot py_div_def using b(2,3) by simp
  then show ?thesis using s(3) lo hi by blast
qed



lemma closest_on_path_at:
  assumes len: "2 \<le> length ws" and k: "k < length ws - 1"
    and z: "segment_result ws lat lon k = Inr (0, t)"
    and pos: "\<forall>j<k. 0 < seg_d ws lat lon j"
  shows "closest_on_path ws lat lon = Inr ((real k + t) / real (length ws - 1), Fin 0)"
proof -
  let ?d = "seg_d ws lat lon"
  have dk: "?d k = 0" and tk: "seg_t ws lat lon k = t"
    using z by (simp_all add: seg_d_def seg_t_def)
  from closest_on_path_char [OF len, of lat lon]
  obtain k' where c: "k' < length ws - 1"
      "closest_on_path ws lat lon
         = Inr ((real k' + seg_t ws lat lon k') / real (length ws - 1), Fin (?d k'))"
      "\<forall>j<k'. ?d k' < ?d j" "\<forall>j<length ws - 1. ?d k' \<le> ?d j"
    by blast
  have "?d k' \<le> 0" using c(4) k dk by auto
  then have z': "?d k' = 0" using seg_d_nonneg [of ws lat lon k'] by simp
  have "\<not> k' < k" using pos z' by auto
  moreover have "\<not> k < k'" using c(3) z' dk by auto
  ultimately have "k' = k" by simp
  then show ?thesis using c(2) dk tk by simp
qed

section \<open>Projection of the waypoints themselves\<close>

lemma convex_abs_lt:
  fixes u v c t :: real
  assumes "\<bar>u\<bar> < c" "\<bar>v\<bar> < c" "0 \<le> t" "t \<le> 1"
  shows "\<bar>u + t * (v - u)\<bar> < c"
proof -
  have e: "u + t * (v - u) = (1 - t) * u + t * v" by (simp add: algebra_simps)
  have e': "- (u + t * (v - u)) = (1 - t) * (- u) + t * (- v)" by (simp add: algebra_simps)
  have "(1 - t) * u + t * v < c"
    using assms by (intro convex_bound_lt) (simp_all add: abs_less_iff)
  moreover have "(1 - t) * (- u) + t * (- v) < c"
    using assms by (intro convex_bound_lt) (simp_all add: abs_less_iff)
  ultimately show ?thesis unfolding abs_less_iff e e' by simp
qed

lemma calculate_distance_zero_imp_eq:
  assumes "calculate_distance lat1 lon1 lat2 lon2 = Inr 0"
    and "\<bar>lat1\<bar> < 90" "\<bar>lat2\<bar> < 90" "\<bar>lon2 - lon1\<bar> < 360"
  shows "lat1 = lat2 \<and> lon1 = lon2"
  using assms by (simp add: calculate_distance_zero_iff haversine_a_zero_iff)

lemma distance_to_line_segment_zero_imp:
  assumes z: "distance_to_line_segment px py x1 y1 x2 y2 = Inr (0, t)"
    and r: "\<bar>px\<bar> < 90" "\<bar>x1\<bar> < 90" "\<bar>x2\<bar> < 90" "\<bar>y1 - py\<bar> < 360" "\<bar>y2 - py\<bar> < 360"
  shows "px = x1 + t * (x2 - x1) \<and> py = y1 + t * (y2 - y1) \<and> 0 \<le> t \<and> t \<le> 1"
proof (cases "x2 - x1 = 0 \<and> y2 - y1 = 0")
  case True
  from z True have "calculate_distance px py x1 y1 = Inr 0 \<and> t = 0"
    by (auto simp: distance_to_line_segment_def split: sum.splits)
  then show ?thesis
    using calculate_distance_zero_imp_eq [of px py x1 y1] r by simp
next
  case False
  then have nz: "(x2 - x1) * (x2 - x1) + (y2 - y1) * (y2 - y1) \<noteq> 0"
    using sum_sq_zero [of "x2 - x1" "y2 - y1"] by blast
  define t' where "t' = max 0 (min 1 (((px - x1) * (x2 - x1) + (py - y1) * (y2 - y1))
                         / ((x2 - x1) * (x2 - x1) + (y2 - y1) * (y2 - y1))))"
  have t': "0 \<le> t'" "t' \<le> 1" by (simp_all add: t'_def)
  obtain d where d: "calculate_distance px py (x1 + t' * (x2 - x1)) (y1 + t' * (y2 - y1)) = Inr d"
    by (simp add: calculate_distance_eq)
  have "distance_to_line_segment px py x1 y1 x2 y2 = Inr (d, t')"
    unfolding distance_to_line_segment_def Let_def py_div_def
    by (simp only: False nz if_False sum.case d flip: t'_def)
  with z have dt: "d = 0" "t' = t" by simp_all
  have b1: "\<bar>x1 + t * (x2 - x1)\<bar> < 90"
    using r(2,3) t' unfolding dt by (rule convex_abs_lt)
  have "\<bar>(y1 - py) + t * ((y2 - py) - (y1 - py))\<bar> < 360"
    using r(4,5) t' unfolding dt by (rule convex_abs_lt)
  then have b2: "\<bar>(y1 + t * (y2 - y1)) - py\<bar> < 360" by (simp add: algebra_simps)
  from calculate_distance_zero_imp_eq [OF d [unfolded dt] r(1) b1 b2] t'
  show ?thesis unfolding dt by simp
qed

lemma distance_to_line_segment_pos:
  assumes r: "\<bar>px\<bar> < 90" "\<bar>x1\<bar> < 90" "\<bar>x2\<bar> < 90" "\<bar>y1 - py\<bar> < 360" "\<bar>y2 - py\<bar> < 360"
    and off: "(px - x1) * (y2 - y1) \<noteq> (py - y1) * (x2 - x1)
        \<or> (px - x1) * (x2 - x1) + (py - y1) * (y2 - y1) < 0
        \<or> (x2 - x1) * (x2 - x1) + (y2 - y1) * (y2 - y1) < (px - x1) * (x2 - x1) + (py - y1) * (y2 - y1)"
  shows "0 < fst (projr (distance_to_line_segment px py x1 y1 x2 y2))"
proof -
  obtain d t where dt: "distance_to_line_segment px py x1 y1 x2 y2 = Inr (d, t)" "0 \<le> d"
    using distance_to_line_segment_total [of px py x1 y1 x2 y2] by blast
  have "d \<noteq> 0"
  proof
    assume "d = 0"
    with dt have "distance_to_line_segment px py x1 y1 x2 y2 = Inr (0, t)" by simp
    from distance_to_line_segment_zero_imp [OF this r]
    have p: "px - x1 = t * (x2 - x1)" "py - y1 = t * (y2 - y1)" "0 \<le> t" "t \<le> 1" by simp_all
    define l where "l = (x2 - x1) * (x2 - x1) + (y2 - y1) * (y2 - y1)"
    have l: "0 \<le> l" by (simp add: l_def)
    have dot: "(px - x1) * (x2 - x1) + (py - y1) * (y2 - y1) = t * l"
      unfolding p l_def by (simp add: algebra_simps)
    have "(px - x1) * (y2 - y1) = (py - y1) * (x2 - x1)" unfolding p by simp
    moreover have "0 \<le> t * l" using p(3) l by simp
    moreover have "t * l \<le> 1 * l" using p(4) l by (rule mult_right_mono)
    ultimately show False using off unfolding dot l_def [symmetric] by simp
  qed
  then show ?thesis using dt by simp
qed

lemma wp4_pos0: "0 < seg_d SCENIC_LOOP_WAYPOINTS 36.1200 (-115.4700) 0"
  unfolding seg_d_def segment_result_def SCENIC_LOOP_WAYPOINTS_def
  by (simp, rule distance_to_line_segment_pos, simp_all)

lemma wp4_pos1: "0 < seg_d SCENIC_LOOP_WAYPOINTS 36.1200 (-115.4700) 1"
  unfolding seg_d_def segment_result_def SCENIC_LOOP_WAYPOINTS_def
  by (simp, rule distance_to_line_segment_pos, simp_all)

lemma wp4_pos2: "0 < seg_d SCENIC_LOOP_WAYPOINTS 36.1200 (-115.4700) 2"
  unfolding seg_d_def segment_result_def SCENIC_LOOP_WAYPOINTS_def
  by (simp, rule distance_to_line_segment_pos, simp_all)

lemma wp4_seg: "segment_result SCENIC_LOOP_WAYPOINTS 36.1200 (-115.4700) 3 = Inr (0, 1)"
  unfolding segment_result_def SCENIC_LOOP_WAYPOINTS_def
  by (simp add: distance_to_line_segment_def py_div_def Let_def calculate_distance_self)

lemma wp4: "find_closest_waypoint_on_path 36.1200 (-115.4700) = Inr (4 / 11, Fin 0)"
proof -
  have len: "2 \<le> length SCENIC_LOOP_WAYPOINTS" "3 < length SCENIC_LOOP_WAYPOINTS - 1"
    "real (length SCENIC_LOOP_WAYPOINTS - 1) = 11"
    by (simp_all add: SCENIC_LOOP_WAYPOINTS_def)
  have "j = 0 \<or> j = 1 \<or> j = 2" if "j < 3" for j :: nat using that by linarith
  then have pos: "\<forall>j<3. 0 < seg_d SCENIC_LOOP_WAYPOINTS 36.1200 (-115.4700) j"
    using wp4_pos0 wp4_pos1 wp4_pos2 by blast
  show ?thesis
    unfolding find_closest_waypoint_on_path_def
      closest_on_path_at [OF len(1,2) wp4_seg pos] len(3) by simp
qed

lemma scenic_length:
  "2 \<le> length SCENIC_LOOP_WAYPOINTS" "real (length SCENIC_LOOP_WAYPOINTS - 1) = 11"
  by (simp_all add: SCENIC_LOOP_WAYPOINTS_def)

lemma at_first_waypoint: "find_closest_waypoint_on_path 36.1588 (-115.4264) = Inr (0, Fin 0)"
proof -
  have k: "0 < length SCENIC_LOOP_WAYPOINTS - 1"
    by (simp add: SCENIC_LOOP_WAYPOINTS_def)
  have seg: "segment_result SCENIC_LOOP_WAYPOINTS 36.1588 (-115.4264) 0 = Inr (0, 0)"
    unfolding segment_result_def SCENIC_LOOP_WAYPOINTS_def
    by (simp add: distance_to_line_segment_def py_div_def Let_def calculate_distance_self)
  have pos: "\<forall>j<0. 0 < seg_d SCENIC_LOOP_WAYPOINTS 36.1588 (-115.4264) j" by simp
  show ?thesis
    unfolding find_closest_waypoint_on_path_def
      closest_on_path_at [OF scenic_length(1) k seg pos] scenic_length(2) by simp
qed

lemma at_waypoint_1: "find_closest_waypoint_on_path 36.1450 (-115.4450) = Inr (1 / 11, Fin 0)"
proof -
  have k: "0 < length SCENIC_LOOP_WAYPOINTS - 1"
    by (simp add: SCENIC_LOOP_WAYPOINTS_def)
  have seg: "segment_result SCENIC_LOOP_WAYPOINTS 36.1450 (-115.4450) 0 = Inr (0, 1)"
    unfolding segment_result_def SCENIC_LOOP_WAYPOINTS_def
    by (simp add: distance_to_line_segment_def py_div_def Let_def calculate_distance_self)
  have pos: "\<forall>j<0. 0 < seg_d SCENIC_LOOP_WAYPOINTS 36.1450 (-115.4450) j" by simp
  show ?thesis
    unfolding find_closest_waypoint_on_path_def
      closest_on_path_at [OF scenic_length(1) k seg pos] scenic_length(2) by simp
qed

lemma earlier_segments_off_waypoint_2:
    "0 < seg_d SCENIC_LOOP_WAYPOINTS 36.1300 (-115.4600) 0"
  unfolding seg_d_def segment_result_def SCENIC_LOOP_WAYPOINTS_def
  by (simp; rule distance_to_line_segment_pos; simp)

lemma at_waypoint_2: "find_closest_waypoint_on_path 36.1300 (-115.4600) = Inr (2 / 11, Fin 0)"
proof -
  have k: "1 < length SCENIC_LOOP_WAYPOINTS - 1"
    by (simp add: SCENIC_LOOP_WAYPOINTS_def)
  have seg: "segment_result SCENIC_LOOP_WAYPOINTS 36.1300 (-115.4600) 1 = Inr (0, 1)"
    unfolding segment_result_def SCENIC_LOOP_WAYPOINTS_def
    by (simp add: distance_to_line_segment_def py_div_def Let_def calculate_distance_self)
  have pos: "\<forall>j<1. 0 < seg_d SCENIC_LOOP_WAYPOINTS 36.1300 (-115.4600) j"
    using earlier_segments_off_waypoint_2 by simp
  show ?thesis
    unfolding find_closest_waypoint_on_path_def
      closest_on_path_at [OF scenic_length(1) k seg pos] scenic_length(2) by simp
qed

lemma earlier_segments_off_waypoint_3:
    "0 < seg_d SCENIC_LOOP_WAYPOINTS 36.1480 (-115.4280) 0
     \<and> 0 < seg_d SCENIC_LOOP_WAYPOINTS 36.1480 (-115.4280) 1"
  unfolding seg_d_def segment_result_def SCENIC_LOOP_WAYPOINTS_def
  by (intro conjI; simp; rule distance_to_line_segment_pos; simp)

lemma at_waypoint_3: "find_closest_waypoint_on_path 36.1480 (-115.4280) = Inr (3 / 11, Fin 0)"
proof -
  have k: "2 < length SCENIC_LOOP_WAYPOINTS - 1"
    by (simp add: SCENIC_LOOP_WAYPOINTS_def)
  have seg: "segment_result SCENIC_LOOP_WAYPOINTS 36.1480 (-115.4280) 2 = Inr (0, 1)"
    unfolding segment_result_def SCENIC_LOOP_WAYPOINTS_def
    by (simp add: distance_to_line_segment_def py_div_def Let_def calculate_distance_self)
  have "j = 0 \<or> j = 1" if "j < 2" for j :: nat
    using that by linarith
  then have pos: "\<forall>j<2. 0 < seg_d SCENIC_LOOP_WAYPOINTS 36.1480 (-115.4280) j"
    using earlier_segments_off_waypoint_3 by blast
  show ?thesis
    unfolding find_closest_waypoint_on_path_def
      closest_on_path_at [OF scenic_length(1) k seg pos] scenic_length(2) by simp
qed

lemma earlier_segments_off_waypoint_4:
    "0 < seg_d SCENIC_LOOP_WAYPOINTS 36.1200 (-115.4700) 0
     \<and> 0 < seg_d SCENIC_LOOP_WAYPOINTS 36.1200 (-115.4700) 1
     \<and> 0 < seg_d SCENIC_LOOP_WAYPOINTS 36.1200 (-115.4700) 2"
  unfolding seg_d_def segment_result_def SCENIC_LOOP_WAYPOINTS_def
  by (intro conjI; simp; rule distance_to_line_segment_pos; simp)

lemma at_waypoint_4: "find_closest_waypoint_on_path 36.1200 (-115.4700) = Inr (4 / 11, Fin 0)"
proof -
  have k: "3 < length SCENIC_LOOP_WAYPOINTS - 1"
    by (simp add: SCENIC_LOOP_WAYPOINTS_def)
  have seg: "segment_result SCENIC_LOOP_WAYPOINTS 36.1200 (-115.4700) 3 = Inr (0, 1)"
    unfolding segment_result_def SCENIC_LOOP_WAYPOINTS_def
    by (simp add: distance_to_line_segment_def py_div_def Let_def calculate_distance_self)
  have "j = 0 \<or> j = 1 \<or> j = 2" if "j < 3" for j :: nat
    using that by linarith
  then have pos: "\<forall>j<3. 0 < seg_d SCENIC_LOOP_WAYPOINTS 36.1200 (-115.4700) j"
    using earlier_segments_off_waypoint_4 by blast
  show ?thesis
    unfolding find_closest_waypoint_on_path_def
      closest_on_path_at [OF scenic_length(1) k seg pos] scenic_length(2) by simp
qed

lemma earlier_segments_off_waypoint_5:
    "0 < seg_d SCENIC_LOOP_WAYPOINTS 36.1000 (-115.4800) 0
     \<and> 0 < seg_d SCENIC_LOOP_WAYPOINTS 36.1000 (-115.4800) 1
     \<and> 0 < seg_d SCENIC_LOOP_WAYPOINTS 36.1000 (-115.4800) 2
     \<and> 0 < seg_d SCENIC_LOOP_WAYPOINTS 36.1000 (-115.4800) 3"
  unfolding seg_d_def segment_result_def SCENIC_LOOP_WAYPOINTS_def
  by (intro conjI; simp; rule distance_to_line_segment_pos; simp)

lemma at_waypoint_5: "find_closest_waypoint_on_path 36.1000 (-115.4800) = Inr (5 / 11, Fin 0)"
proof -
  have k: "4 < length SCENIC_LOOP_WAYPOINTS - 1"
    by (simp add: SCENIC_LOOP_WAYPOINTS_def)
  have seg: "segment_result SCENIC_LOOP_WAYPOINTS 36.1000 (-115.4800) 4 = Inr (0, 1)"
    unfolding segment_result_def SCENIC_LOOP_WAYPOINTS_def
    by (simp add: distance_to_line_segment_def py_div_def Let_def calculate_distance_self)
  have "j = 0 \<or> j = 1 \<or> j = 2 \<or> j = 3" if "j < 4" for j :: nat
    using that by linarith
  then have pos: "\<forall>j<4. 0 < seg_d SCENIC_LOOP_WAYPOINTS 36.1000 (-115.4800) j"
    using earlier_segments_off_waypoint_5 by blast
  show ?thesis
    unfolding find_closest_waypoint_on_path_def
      closest_on_path_at [OF scenic_length(1) k seg pos] scenic_length(2) by simp
qed

lemma earlier_segments_off_waypoint_6:
    "0 < seg_d SCENIC_LOOP_WAYPOINTS 36.1100 (-115.5000) 0
     \<and> 0 < seg_d SCENIC_LOOP_WAYPOINTS 36.1100 (-115.5000) 1
     \<and> 0 < seg_d SCENIC_LOOP_WAYPOINTS 36.1100 (-115.5000) 2
     \<and> 0 < seg_d SCENIC_LOOP_WAYPOINTS 36.1100 (-115.5000) 3
     \<and> 0 < seg_d SCENIC_LOOP_WAYPOINTS 36.1100 (-115.5000) 4"
  unfolding seg_d_def segment_result_def SCENIC_LOOP_WAYPOINTS_def
  by (intro conjI; simp; rule distance_to_line_segment_pos; simp)

lemma at_waypoint_6: "find_closest_waypoint_on_path 36.1100 (-115.5000) = Inr (6 / 11, Fin 0)"
proof -
  have k: "5 < length SCENIC_LOOP_WAYPOINTS - 1"
    by (simp add: SCENIC_LOOP_WAYPOINTS_def)
  have seg: "segment_result SCENIC_LOOP_WAYPOINTS 36.1100 (-115.5000) 5 = Inr (0, 1)"
    unfolding segment_result_def SCENIC_LOOP_WAYPOINTS_def
    by (simp add: distance_to_line_segment_def py_div_def Let_def calculate_distance_self)
  have "j = 0 \<or> j = 1 \<or> j = 2 \<or> j = 3 \<or> j = 4" if "j < 5" for j :: nat
    using that by linarith
  then have pos: "\<forall>j<5. 0 < seg_d SCENIC_LOOP_WAYPOINTS 36.1100 (-115.5000) j"
    using earlier_segments_off_waypoint_6 by blast
  show ?thesis
    unfolding find_closest_waypoint_on_path_def
      closest_on_path_at [OF scenic_length(1) k seg pos] scenic_length(2) by simp
qed

lemma earlier_segments_off_waypoint_7:
    "0 < seg_d SCENIC_LOOP_WAYPOINTS 36.1150 (-115.4900) 0
     \<and> 0 < seg_d SCENIC_LOOP_WAYPOINTS 36.1150 (-115.4900) 1
     \<and> 0 < seg_d SCENIC_LOOP_WAYPOINTS 36.1150 (-115.4900) 2
     \<and> 0 < seg_d SCENIC_LOOP_WAYPOINTS 36.1150 (-115.4900) 3
     \<and> 0 < seg_d SCENIC_LOOP_WAYPOINTS 36.1150 (-115.4900) 4
     \<and> 0 < seg_d SCENIC_LOOP_WAYPOINTS 36.1150 (-115.4900) 5"
  unfolding seg_d_def segment_result_def SCENIC_LOOP_WAYPOINTS_def
  by (intro conjI; simp; rule distance_to_line_segment_pos; simp)

lemma at_waypoint_7: "find_closest_waypoint_on_path 36.1150 (-115.4900) = Inr (7 / 11, Fin 0)"
proof -
  have k: "6 < length SCENIC_LOOP_WAYPOINTS - 1"
    by (simp add: SCENIC_LOOP_WAYPOINTS_def)
  have seg: "segment_result SCENIC_LOOP_WAYPOINTS 36.1150 (-115.4900) 6 = Inr (0, 1)"
    unfolding segment_result_def SCENIC_LOOP_WAYPOINTS_def
    by (simp add: distance_to_line_segment_def py_div_def Let_def calculate_distance_self)
  have "j = 0 \<or> j = 1 \<or> j = 2 \<or> j = 3 \<or> j = 4 \<or> j = 5" if "j < 6" for j :: nat
    using that by linarith
  then have pos: "\<forall>j<6. 0 < seg_d SCENIC_LOOP_WAYPOINTS 36.1150 (-115.4900) j"
    using earlier_segments_off_waypoint_7 by blast
  show ?thesis
    unfolding find_closest_waypoint_on_path_def
      closest_on_path_at [OF scenic_length(1) k seg pos] scenic_length(2) by simp
qed

lemma earlier_segments_off_waypoint_8:
    "0 < seg_d SCENIC_LOOP_WAYPOINTS 36.1250 (-115.4850) 0
     \<and> 0 < seg_d SCENIC_LOOP_WAYPOINTS 36.1250 (-115.4850) 1
     \<and> 0 < seg_d SCENIC_LOOP_WAYPOINTS 36.1250 (-115.4850) 2
     \<and> 0 < seg_d SCENIC_LOOP_WAYPOINTS 36.1250 (-115.4850) 3
     \<and> 0 < seg_d SCENIC_LOOP_WAYPOINTS 36.1250 (-115.4850) 4
     \<and> 0 < seg_d SCENIC_LOOP_WAYPOINTS 36.1250 (-115.4850) 5
     \<and> 0 < seg_d SCENIC_LOOP_WAYPOINTS 36.1250 (-115.4850) 6"
  unfolding seg_d_def segment_result_def SCENIC_LOOP_WAYPOINTS_def
  by (intro conjI; simp; rule distance_to_line_segment_pos; simp)

lemma at_waypoint_8: "find_closest_waypoint_on_path 36.1250 (-115.4850) = Inr (8 / 11, Fin 0)"
proof -
  have k: "7 < length SCENIC_LOOP_WAYPOINTS - 1"
    by (simp add: SCENIC_LOOP_WAYPOINTS_def)
  have seg: "segment_result SCENIC_LOOP_WAYPOINTS 36.1250 (-115.4850) 7 = Inr (0, 1)"
    unfolding segment_result_def SCENIC_LOOP_WAYPOINTS_def
    by (simp add: distance_to_line_segment_def py_div_def Let_def calculate_distance_self)
  have "j = 0 \<or> j = 1 \<or> j = 2 \<or> j = 3 \<or> j = 4 \<or> j = 5 \<or> j = 6" if "j < 7" for j :: nat
    using that by linarith
  then have pos: "\<forall>j<7. 0 < seg_d SCENIC_LOOP_WAYPOINTS 36.1250 (-115.4850) j"
    using earlier_segments_off_waypoint_8 by blast
  show ?thesis
    unfolding find_closest_waypoint_on_path_def
      closest_on_path_at [OF scenic_length(1) k seg pos] scenic_length(2) by simp
qed

lemma earlier_segments_off_waypoint_9:
    "0 < seg_d SCENIC_LOOP_WAYPOINTS 36.1350 (-115.4800) 0
     \<and> 0 < seg_d SCENIC_LOOP_WAYPOINTS 36.1350 (-115.4800) 1
     \<and> 0 < seg_d SCENIC_LOOP_WAYPOINTS 36.1350 (-115.4800) 2
     \<and> 0 < seg_d SCENIC_LOOP_WAYPOINTS 36.1350 (-115.4800) 3
     \<and> 0 < seg_d SCENIC_LOOP_WAYPOINTS 36.1350 (-115.4800) 4
     \<and> 0 < seg_d SCENIC_LOOP_WAYPOINTS 36.1350 (-115.4800) 5
     \<and> 0 < seg_d SCENIC_LOOP_WAYPOINTS 36.1350 (-115.4800) 6
     \<and> 0 < seg_d SCENIC_LOOP_WAYPOINTS 36.1350 (-115.4800) 7"
  unfolding seg_d_def segment_result_def SCENIC_LOOP_WAYPOINTS_def
  by (intro conjI; simp; rule distance_to_line_segment_pos; simp)

lemma at_waypoint_9: "find_closest_waypoint_on_path 36.1350 (-115.4800) = Inr (9 / 11, Fin 0)"
proof -
  have k: "8 < length SCENIC_LOOP_WAYPOINTS - 1"
    by (simp add: SCENIC_LOOP_WAYPOINTS_def)
  have seg: "segment_result SCENIC_LOOP_WAYPOINTS 36.1350 (-115.4800) 8 = Inr (0, 1)"
    unfolding segment_result_def SCENIC_LOOP_WAYPOINTS_def
    by (simp add: distance_to_line_segment_def py_div_def Let_def calculate_distance_self)
  have "j = 0 \<or> j = 1 \<or> j = 2 \<or> j = 3 \<or> j = 4 \<or> j = 5 \<or> j = 6 \<or> j = 7" if "j < 8" for j :: nat
    using that by linarith
  then have pos: "\<forall>j<8. 0 < seg_d SCENIC_LOOP_WAYPOINTS 36.1350 (-115.4800) j"
    using earlier_segments_off_waypoint_9 by blast
  show ?thesis
    unfolding find_closest_waypoint_on_path_def
      closest_on_path_at [OF scenic_length(1) k seg pos] scenic_length(2) by simp
qed

lemma earlier_segments_off_waypoint_10:
    "0 < seg_d SCENIC_LOOP_WAYPOINTS 36.1500 (-115.4650) 0
     \<and> 0 < seg_d SCENIC_LOOP_WAYPOINTS 36.1500 (-115.4650) 1
     \<and> 0 < seg_d SCENIC_LOOP_WAYPOINTS 36.1500 (-115.4650) 2
     \<and> 0 < seg_d SCENIC_LOOP_WAYPOINTS 36.1500 (-115.4650) 3
     \<and> 0 < seg_d SCENIC_LOOP_WAYPOINTS 36.1500 (-115.4650) 4
     \<and> 0 < seg_d SCENIC_LOOP_WAYPOINTS 36.1500 (-115.4650) 5
     \<and> 0 < seg_d SCENIC_LOOP_WAYPOINTS 36.1500 (-115.4650) 6
     \<and> 0 < seg_d SCENIC_LOOP_WAYPOINTS 36.1500 (-115.4650) 7
     \<and> 0 < seg_d SCENIC_LOOP_WAYPOINTS 36.1500 (-115.4650) 8"
  unfolding seg_d_def segment_result_def SCENIC_LOOP_WAYPOINTS_def
  by (intro conjI; simp; rule distance_to_line_segment_pos; simp)

lemma at_waypoint_10: "find_closest_waypoint_on_path 36.1500 (-115.4650) = Inr (10 / 11, Fin 0)"
proof -
  have k: "9 < length SCENIC_LOOP_WAYPOINTS - 1"
    by (simp add: SCENIC_LOOP_WAYPOINTS_def)
  have seg: "segment_result SCENIC_LOOP_WAYPOINTS 36.1500 (-115.4650) 9 = Inr (0, 1)"
    unfolding segment_result_def SCENIC_LOOP_WAYPOINTS_def
    by (simp add: distance_to_line_segment_def py_div_def Let_def calculate_distance_self)
  have "j = 0 \<or> j = 1 \<or> j = 2 \<or> j = 3 \<or> j = 4 \<or> j = 5 \<or> j = 6 \<or> j = 7 \<or> j = 8" if "j < 9" for j :: nat
    using that by linarith
  then have pos: "\<forall>j<9. 0 < seg_d SCENIC_LOOP_WAYPOINTS 36.1500 (-115.4650) j"
    using earlier_segments_off_waypoint_10 by blast
  show ?thesis
    unfolding find_closest_waypoint_on_path_def
      closest_on_path_at [OF scenic_length(1) k seg pos] scenic_length(2) by simp
qed

lemma nth_scenic_cases:
  assumes "i < 12"
  shows "i \<in> {0, 1, 2, 3, 4, 5, 6, 7, 8, 9, 10, 11 :: nat}"
  using assms by simp arith

text \<open>
  C2, amended. For every waypoint index \<open>i\<close> from 0 to 10, the path projector applied to
  the coordinates of waypoint \<open>i\<close> returns progress \<open>i / 11\<close> and minimum distance 0.
  The last waypoint, index 11, has the coordinates of waypoint 0, and there the
  projector returns progress 0 and minimum distance 0.
\<close>

theorem waypoint_projection:
  assumes "i < 12" and "SCENIC_LOOP_WAYPOINTS ! i = (lat, lon, label)"
  shows "find_closest_waypoint_on_path lat lon
           = Inr (if i = 11 then 0 else real i / 11, Fin 0)"
proof -
  have c0: ?thesis if i: "i = 0"
  proof -
    have e: "lat = 36.1588" "lon = -115.4264"
      using assms(2) unfolding i by (simp_all add: SCENIC_LOOP_WAYPOINTS_def)
    show ?thesis unfolding e i using at_first_waypoint by simp
  qed
  have c1: ?thesis if i: "i = 1"
  proof -
    have e: "lat = 36.1450" "lon = -115.4450"
      using assms(2) unfolding i by (simp_all add: SCENIC_LOOP_WAYPOINTS_def)
    show ?thesis unfolding e i using at_waypoint_1 by simp
  qed
  have c2: ?thesis if i: "i = 2"
  proof -
    have e: "lat = 36.1300" "lon = -115.4600"
      using assms(2) unfolding i by (simp_all add: SCENIC_LOOP_WAYPOINTS_def)
    show ?thesis unfolding e i using at_waypoint_2 by simp
  qed
  have c3: ?thesis if i: "i = 3"
  proof -
    have e: "lat = 36.1480" "lon = -115.4280"
      using assms(2) unfolding i by (simp_all add: SCENIC_LOOP_WAYPOINTS_def)
    show ?thesis unfolding e i using at_waypoint_3 by simp
  qed
  have c4: ?thesis if i: "i = 4"
  proof -
    have e: "lat = 36.1200" "lon = -115.4700"
      using assms(2) unfolding i by (simp_all add: SCENIC_LOOP_WAYPOINTS_def)
    show ?thesis unfolding e i using at_waypoint_4 by simp
  qed
  have c5: ?thesis if i: "i = 5"
  proof -
    have e: "lat = 36.1000" "lon = -115.4800"
      using assms(2) unfolding i by (simp_all add: SCENIC_LOOP_WAYPOINTS_def)
    show ?thesis unfolding e i using at_waypoint_5 by simp
  qed
  have c6: ?thesis if i: "i = 6"
  proof -
    have e: "lat = 36.1100" "lon = -115.5000"
      using assms(2) unfolding i by (simp_all add: SCENIC_LOOP_WAYPOINTS_def)
    show ?thesis unfolding e i using at_waypoint_6 by simp
  qed
  have c7: ?thesis if i: "i = 7"
  proof -
    have e: "lat = 36.1150" "lon = -115.4900"
      using assms(2) unfolding i by (simp_all add: SCENIC_LOOP_WAYPOINTS_def)
    show ?thesis unfolding e i using at_waypoint_7 by simp
  qed
  have c8: ?thesis if i: "i = 8"
  proof -
    have e: "lat = 36.1250" "lon = -115.4850"
      using assms(2) unfolding i by (simp_all add: SCENIC_LOOP_WAYPOINTS_def)
    show ?thesis unfolding e i using at_waypoint_8 by simp
  qed
  have c9: ?thesis if i: "i = 9"
  proof -
    have e: "lat = 36.1350" "lon = -115.4800"
      using assms(2) unfolding i by (simp_all add: SCENIC_LOOP_WAYPOINTS_def)
    show ?thesis unfolding e i using at_waypoint_9 by simp
  qed
  have c10: ?thesis if i: "i = 10"
  proof -
    have e: "lat = 36.1500" "lon = -115.4650"
      using assms(2) unfolding i by (simp_all add: SCENIC_LOOP_WAYPOINTS_def)
    show ?thesis unfolding e i using at_waypoint_10 by simp
  qed
  have c11: ?thesis if i: "i = 11"
  proof -
    have e: "lat = 36.1588" "lon = -115.4264"
      using assms(2) unfolding i by (simp_all add: SCENIC_LOOP_WAYPOINTS_def)
    show ?thesis unfolding e i using at_first_waypoint by simp
  qed
  show ?thesis
    using nth_scenic_cases [OF assms(1)] c0 c1 c2 c3 c4 c5 c6 c7 c8 c9 c10 c11 by blast
qed

theorem waypoint_projection_witness:
  "(3 :: nat) < 12
   \<and> SCENIC_LOOP_WAYPOINTS ! 3 = (36.1480, -115.4280, ''Calico Basin / First Pullout'')
   \<and> find_closest_waypoint_on_path 36.1480 (-115.4280) = Inr (3 / 11, Fin 0)"
proof -
  have a: "(3 :: nat) < 12" by simp
  have b: "SCENIC_LOOP_WAYPOINTS ! 3 = (36.1480, -115.4280, ''Calico Basin / First Pullout'')"
    by (simp add: SCENIC_LOOP_WAYPOINTS_def)
  from waypoint_projection [OF a b] a b show ?thesis by simp
qed

text \<open>
  C2, as stated, fails at the last waypoint: its coordinates are those of the first one,
  segment 0 already has distance 0, no later segment is strictly closer, and the
  progress is 0 instead of \<open>11 / 11\<close>.
\<close>

theorem last_waypoint_projects_to_start:
  "SCENIC_LOOP_WAYPOINTS ! 11 = (36.1588, -115.4264, ''Return to Visitor Center'')
   \<and> find_closest_waypoint_on_path 36.1588 (-115.4264) = Inr (0, Fin 0)
   \<and> (0 :: real) \<noteq> 11 / (12 - 1)"
  using at_first_waypoint by (simp add: SCENIC_LOOP_WAYPOINTS_def)

section \<open>Grade parsing and scores\<close>

lemma parse_5_10a: "parse_rating (Str ''5.10a'') = 10.0" by code_simp
lemma categorize_5_10a: "categorize_grade (Str ''5.10a'') = ''5.9-5.10''" by code_simp
lemma parse_5_7: "parse_rating (Str ''5.7'') = 7.0" by code_simp
lemma categorize_5_7: "categorize_grade (Str ''5.7'') = ''5.7-5.8''" by code_simp
lemma parse_5_11c_PG13: "parse_rating (Str ''5.11c PG13'') = 11.5" by code_simp
lemma categorize_5_11c_PG13: "categorize_grade (Str ''5.11c PG13'') = ''5.11''" by code_simp
lemma parse_empty: "parse_rating (Str '''') = 0" by code_simp
lemma categorize_empty: "categorize_grade (Str '''') = ''unknown''" by code_simp
lemma parse_V3: "parse_rating (Str ''V3'') = 0" by code_simp
lemma categorize_V3: "categorize_grade (Str ''V3'') = ''unknown''" by code_simp
lemma parse_NaN: "parse_rating NaN = 0" by code_simp
lemma categorize_NaN: "categorize_grade NaN = ''unknown''" by code_simp

text \<open>
  C7. Grade parsing on the listed inputs: \<open>5.10a\<close> parses to 10.0 in category
  \<open>5.9-5.10\<close>; \<open>5.7\<close> to 7.0 in \<open>5.7-5.8\<close>; \<open>5.11c PG13\<close> to 11.5 in \<open>5.11\<close>; the
  empty string, \<open>V3\<close> and a missing cell parse to 0 in category \<open>unknown\<close>.
\<close>

theorem grade_parsing_examples:
  "parse_rating (Str ''5.10a'') = 10.0 \<and> categorize_grade (Str ''5.10a'') = ''5.9-5.10''
   \<and> parse_rating (Str ''5.7'') = 7.0 \<and> categorize_grade (Str ''5.7'') = ''5.7-5.8''
   \<and> parse_rating (Str ''5.11c PG13'') = 11.5 \<and> categorize_grade (Str ''5.11c PG13'') = ''5.11''
   \<and> parse_rating (Str '''') = 0 \<and> categorize_grade (Str '''') = ''unknown''
   \<and> parse_rating (Str ''V3'') = 0 \<and> categorize_grade (Str ''V3'') = ''unknown''
   \<and> parse_rating NaN = 0 \<and> categorize_grade NaN = ''unknown''"
  by (intro conjI parse_5_10a categorize_5_10a parse_5_7 categorize_5_7 parse_5_11c_PG13
      categorize_5_11c_PG13 parse_empty categorize_empty parse_V3 categorize_V3 parse_NaN
      categorize_NaN)

lemma parse_5_0: "parse_rating (Str ''5.0'') = 0" by code_simp
lemma score_5_0: "calculate_difficulty_score (Str ''5.0'') = 0" by code_simp
lemma score_5_6: "calculate_difficulty_score (Str ''5.6'') = 1" by code_simp
lemma categorize_5_0: "categorize_grade (Str ''5.0'') = ''unknown''" by code_simp

text \<open>
  C4 at the rating \<open>5.0\<close>. The grade 5.0 lies below 5.7, and C4 gives it the difficulty
  score 1. The parser returns 0 for it, the value that also stands for an unparseable
  rating, so the score is 0 and the category is \<open>unknown\<close>; the neighbouring grade
  \<open>5.6\<close> scores 1.
\<close>

theorem grade_5_0_scores_as_unparseable:
  "parse_rating (Str ''5.0'') = 0 \<and> calculate_difficulty_score (Str ''5.0'') = 0
   \<and> categorize_grade (Str ''5.0'') = ''unknown''
   \<and> calculate_difficulty_score (Str ''5.6'') = 1"
  by (intro conjI parse_5_0 score_5_0 score_5_6 categorize_5_0)

text \<open>
  For a plain grade \<open>5.N\<close>, \<open>N\<close> a string of digits, the parser returns \<open>N\<close>, and the
  difficulty score is 2 for \<open>7 \<le> N \<le> 10\<close>, 1 for \<open>1 \<le> N < 7\<close> and 0 for \<open>N > 10\<close>;
  only \<open>N = 0\<close> falls into the branch of the unparseable ratings.
\<close>

lemma digit_not_space: "isdigit_char c \<Longrightarrow> \<not> isspace c"
  by (auto simp: isspace_def isdigit_char_def less_eq_char_def)

lemma digit_upper: "isdigit_char c \<Longrightarrow> upper_char c = c"
  by (auto simp: upper_char_def isdigit_char_def less_eq_char_def Let_def)

lemma digit_not_sign: "isdigit_char c \<Longrightarrow> c \<noteq> CHR ''+'' \<and> c \<noteq> CHR ''-'' \<and> c \<noteq> CHR ''.''"
  by (auto simp: isdigit_char_def less_eq_char_def)

lemma remove_modifiers_no_space: "\<forall>c\<in>set s. \<not> isspace c \<Longrightarrow> remove_modifiers s = s"
  by (induction s) simp_all

lemma strip_no_outer_space:
  assumes "s \<noteq> []" "\<not> isspace (hd s)" "\<not> isspace (last s)"
  shows "strip s = s"
proof -
  have "dropWhile isspace s = s" using assms(1,2) by (cases s) simp_all
  moreover have "dropWhile isspace (rev s) = rev s"
    using assms(1,3) by (cases "rev s") (simp_all add: hd_rev [symmetric])
  ultimately show ?thesis by (simp add: strip_def)
qed

lemma plain_grade_parse:
  assumes "isdigit ds"
  shows "parse_rating (Str (''5.'' @ ds)) = real (int_of_digits ds)"
proof -
  from assms have ne: "ds \<noteq> []" and dig: "\<forall>c\<in>set ds. isdigit_char c"
    by (simp_all add: isdigit_def list_all_iff)
  have nsp: "\<forall>c\<in>set ds. \<not> isspace c" using dig digit_not_space by blast
  have "isdigit_char (last ds)" using ne dig by simp
  then have "\<not> isspace (last (''5.'' @ ds))" using ne digit_not_space by simp
  then have st: "strip (''5.'' @ ds) = ''5.'' @ ds"
    by (intro strip_no_outer_space) (simp_all add: isspace_def)
  have "map upper_char ds = ds"
    using dig by (intro map_idI) (simp add: digit_upper)
  then have up: "upper (''5.'' @ ds) = ''5.'' @ ds"
    by (simp add: upper_def upper_char_def)
  have rm: "remove_modifiers (''5.'' @ ds) = ''5.'' @ ds"
    by (rule remove_modifiers_no_space) (use nsp in \<open>auto simp: isspace_def\<close>)
  have "dropWhile isspace ds = ds" using ne nsp by (cases ds) simp_all
  moreover have "takeWhile (\<lambda>c. \<not> isspace c) ds = ds" using nsp by simp
  ultimately have fp: "first_part ds = ds" by (simp add: first_part_def)
  have cl: "filter (\<lambda>c. c \<noteq> CHR ''+'' \<and> c \<noteq> CHR ''-'') ds = ds"
    using dig digit_not_sign by (simp add: filter_id_conv)
  show ?thesis
    unfolding parse_rating_def cell.case st up rm by (simp add: Let_def fp cl assms)
qed

lemma plain_grade_difficulty_score:
  assumes "isdigit ds"
  shows "calculate_difficulty_score (Str (''5.'' @ ds)) =
           (if int_of_digits ds = 0 then 0
            else if 7 \<le> int_of_digits ds \<and> int_of_digits ds \<le> 10 then 2
            else if int_of_digits ds < 7 then 1
            else 0)"
proof -
  have "real n \<le> 10.75 \<longleftrightarrow> n \<le> 10" for n :: nat
  proof
    assume "real n \<le> 10.75"
    then have "real n < real 11" by simp
    then show "n \<le> 10" by (simp only: of_nat_less_iff)
  next
    assume "n \<le> 10"
    then have "real n \<le> 10" by simp
    then show "real n \<le> 10.75" by simp
  qed
  then show ?thesis
    unfolding calculate_difficulty_score_def plain_grade_parse [OF assms] Let_def
    by (auto simp del: of_nat_le_iff)
qed

lemma dropWhile_keeps_word:
  assumes "w \<noteq> []" "\<not> P (hd w)"
  shows "\<exists>ps'. dropWhile P (ps @ w @ ss) = ps' @ w @ ss"
proof (induction ps)
  case Nil
  from assms obtain x w' where "w = x # w'" "\<not> P x" by (cases w) auto
  then have "dropWhile P ([] @ w @ ss) = [] @ w @ ss" by simp
  then show ?case by blast
next
  case (Cons p ps)
  show ?case
  proof (cases "P p")
    case True
    then show ?thesis using Cons.IH by simp
  next
    case False
    then have "dropWhile P ((p # ps) @ w @ ss) = (p # ps) @ w @ ss" by simp
    then show ?thesis by blast
  qed
qed

lemma sublist_strip:
  assumes "sublist w s" "w \<noteq> []" "\<not> isspace (hd w)" "\<not> isspace (last w)"
  shows "sublist w (strip s)"
proof -
  from assms(1) obtain ps ss where s: "s = ps @ w @ ss" by (auto simp: sublist_def)
  from dropWhile_keeps_word [of w isspace ps ss, OF assms(2,3)]
  obtain ps' where l: "dropWhile isspace s = ps' @ w @ ss" unfolding s by blast
  have rw: "rev w \<noteq> []" "\<not> isspace (hd (rev w))"
    using assms(2,4) by (simp_all add: hd_rev)
  from dropWhile_keeps_word [of "rev w" isspace "rev ss" "rev ps'", OF rw]
  obtain ss' where r: "dropWhile isspace (rev ss @ rev w @ rev ps') = ss' @ rev w @ rev ps'"
    by blast
  have "strip s = ps' @ w @ rev ss'"
    unfolding strip_def l using r by simp
  then show ?thesis by (simp add: sublist_def) blast
qed

text \<open>
  C10. A route type that contains both \<open>Sport\<close> and \<open>Multi-Pitch\<close> scores \<open>+1\<close>: the
  test for \<open>Sport\<close> comes first.
\<close>

theorem sport_takes_precedence:
  assumes "sublist ''Sport'' route_type" and "sublist ''Multi-Pitch'' route_type"
  shows "calculate_route_type_score (Str route_type) = 1"
proof -
  have "sublist ''Sport'' (strip route_type)"
    using assms(1) by (rule sublist_strip) (simp_all add: isspace_def)
  then show ?thesis by (simp add: calculate_route_type_score_def)
qed

theorem sport_takes_precedence_witness:
  "sublist ''Sport'' ''Sport, Multi-Pitch'' \<and> sublist ''Multi-Pitch'' ''Sport, Multi-Pitch''
   \<and> calculate_route_type_score (Str ''Sport, Multi-Pitch'') = 1"
proof -
  have a: "sublist ''Sport'' ''Sport, Multi-Pitch''" by code_simp
  have b: "sublist ''Multi-Pitch'' ''Sport, Multi-Pitch''" by code_simp
  from sport_takes_precedence [OF a b] a b show ?thesis by simp
qed

section \<open>Sorting\<close>

lemma set_insort_by: "set (insort_by le x ys) = insert x (set ys)"
  by (induction ys) auto

lemma set_sort_by: "set (sort_by le xs) = set xs"
  by (induction xs) (simp_all add: sort_by_def set_insort_by)

lemma sorted_insort_by_key:
  fixes f :: "'a \<Rightarrow> 'b :: linorder"
  assumes "sorted (map f ys)"
  shows "sorted (map f (insort_by (\<lambda>a b. f a \<le> f b) x ys))"
  using assms by (induction ys) (auto simp: set_insort_by)

lemma sorted_sort_by_key:
  fixes f :: "'a \<Rightarrow> 'b :: linorder"
  shows "sorted (map f (sort_by (\<lambda>a b. f a \<le> f b) xs))"
proof (induction xs)
  case Nil
  then show ?case by (simp add: sort_by_def)
next
  case (Cons x xs)
  have "sort_by (\<lambda>a b. f a \<le> f b) (x # xs)
          = insort_by (\<lambda>a b. f a \<le> f b) x (sort_by (\<lambda>a b. f a \<le> f b) xs)"
    by (simp add: sort_by_def)
  then show ?case using sorted_insort_by_key [OF Cons.IH] by simp
qed



lemma length_insort_by: "length (insort_by le x ys) = Suc (length ys)"
  by (induction ys) simp_all

lemma length_sort_by: "length (sort_by le xs) = length xs"
  by (induction xs) (simp_all add: sort_by_def length_insort_by)

lemma sorted_wrt_insort_by:
  assumes tot: "\<And>a b. le a b \<or> le b a" and trans: "\<And>a b c. le a b \<Longrightarrow> le b c \<Longrightarrow> le a c"
    and "sorted_wrt le ys"
  shows "sorted_wrt le (insort_by le x ys)"
  using assms(3)
proof (induction ys)
  case Nil
  then show ?case by simp
next
  case (Cons y ys)
  show ?case
  proof (cases "le x y")
    case True
    then have "\<forall>z\<in>set ys. le x z" using Cons.prems trans by auto
    then show ?thesis using True Cons.prems by simp
  next
    case False
    then have "le y x" using tot by blast
    then show ?thesis using False Cons by (auto simp: set_insort_by)
  qed
qed

lemma sorted_wrt_sort_by:
  assumes tot: "\<And>a b. le a b \<or> le b a" and trans: "\<And>a b c. le a b \<Longrightarrow> le b c \<Longrightarrow> le a c"
  shows "sorted_wrt le (sort_by le xs)"
proof (induction xs)
  case Nil
  then show ?case by (simp add: sort_by_def)
next
  case (Cons x xs)
  have "sort_by le (x # xs) = insort_by le x (sort_by le xs)" by (simp add: sort_by_def)
  then show ?case using sorted_wrt_insort_by [of le, OF tot trans Cons.IH] by simp
qed

lemma nan_last_le_total: "nan_last_le a b \<or> nan_last_le b a"
  by (cases a; cases b) auto

lemma nan_last_le_trans: "nan_last_le a b \<Longrightarrow> nan_last_le b c \<Longrightarrow> nan_last_le a c"
  by (cases a; cases b; cases c) auto

lemma sorted_sort_values:
  "sorted_wrt (\<lambda>a b. nan_last_le (Path_Position (snd a)) (Path_Position (snd b)))
     (sort_values_Path_Position df)"
  unfolding sort_values_Path_Position_def
proof (rule sorted_wrt_sort_by)
  show "nan_last_le (Path_Position (snd a)) (Path_Position (snd b))
        \<or> nan_last_le (Path_Position (snd b)) (Path_Position (snd a))"
    for a b :: "nat \<times> positioned_row"
    by (rule nan_last_le_total)
  show "nan_last_le (Path_Position (snd a)) (Path_Position (snd c))"
    if "nan_last_le (Path_Position (snd a)) (Path_Position (snd b))"
      and "nan_last_le (Path_Position (snd b)) (Path_Position (snd c))"
    for a b c :: "nat \<times> positioned_row"
    using that by (rule nan_last_le_trans)
qed

section \<open>Route-to-path assignment\<close>

lemma load_ex: "load_data ex_csv =
     [(1, \<lparr>Route = ''At The Entrance'', Area = Some ''Red Rocks'', Canyon = Some ''Calico Basin'',
           Latitude = 36.1588, Longitude = -115.4264\<rparr>),
      (2, \<lparr>Route = ''Early Drive'', Area = Some ''Red Rocks'', Canyon = Some ''Calico Basin'',
           Latitude = 36.1450, Longitude = -115.4450\<rparr>)]"
  by (simp add: load_data_def ex_csv_def upt_rec)

lemma path_data_ex: "path_data (load_data ex_csv) = Inr [(0, Fin 0), (1 / 11, Fin 0)]"
  unfolding load_ex using at_first_waypoint at_waypoint_1 by simp

text \<open>
  C1 on the route file \<open>ex_csv\<close>. The row filter of \<open>load_data\<close> drops the first row and
  leaves the labels 1 and 2. The two remaining routes lie on waypoints 0 and 1, with
  progress 0 and \<open>1 / 11\<close>. The assignment aligns on labels: the route labelled 1
  receives the progress computed for the other route, and the route labelled 2
  receives no progress at all.
\<close>

theorem filtered_frame_misaligned:
  "load_data ex_csv =
     [(1, \<lparr>Route = ''At The Entrance'', Area = Some ''Red Rocks'', Canyon = Some ''Calico Basin'',
           Latitude = 36.1588, Longitude = -115.4264\<rparr>),
      (2, \<lparr>Route = ''Early Drive'', Area = Some ''Red Rocks'', Canyon = Some ''Calico Basin'',
           Latitude = 36.1450, Longitude = -115.4450\<rparr>)]
   \<and> find_closest_waypoint_on_path 36.1588 (-115.4264) = Inr (0, Fin 0)
   \<and> find_closest_waypoint_on_path 36.1450 (-115.4450) = Inr (1 / 11, Fin 0)
   \<and> analyze_scenic_loop_order (load_data ex_csv) =
       Inr [(1, \<lparr>Route = ''At The Entrance'', Area = Some ''Red Rocks'', Canyon = Some ''Calico Basin'',
                 Latitude = 36.1588, Longitude = -115.4264,
                 Path_Position = Some (1 / 11), Distance_to_Road = Some (Fin 0),
                 Scenic_Loop_Order = 1\<rparr>),
            (2, \<lparr>Route = ''Early Drive'', Area = Some ''Red Rocks'', Canyon = Some ''Calico Basin'',
                 Latitude = 36.1450, Longitude = -115.4450,
                 Path_Position = None, Distance_to_Road = None,
                 Scenic_Loop_Order = 2\<rparr>)]"
proof -
  have "analyze_scenic_loop_order (load_data ex_csv) =
       Inr [(1, \<lparr>Route = ''At The Entrance'', Area = Some ''Red Rocks'', Canyon = Some ''Calico Basin'',
                 Latitude = 36.1588, Longitude = -115.4264,
                 Path_Position = Some (1 / 11), Distance_to_Road = Some (Fin 0),
                 Scenic_Loop_Order = 1\<rparr>),
            (2, \<lparr>Route = ''Early Drive'', Area = Some ''Red Rocks'', Canyon = Some ''Calico Basin'',
                 Latitude = 36.1450, Longitude = -115.4450,
                 Path_Position = None, Distance_to_Road = None,
                 Scenic_Loop_Order = 2\<rparr>)]"
    unfolding analyze_scenic_loop_order_def path_data_ex
    by (simp add: load_ex assign_columns_def sort_values_Path_Position_def sort_by_def
        assign_order_def upt_rec)
  then show ?thesis using load_ex at_first_waypoint at_waypoint_1 by simp
qed

lemma find_closest_waypoint_on_path_total:
  "\<exists>p d. find_closest_waypoint_on_path lat lon = Inr (p, Fin d) \<and> 0 \<le> p \<and> p \<le> 1 \<and> 0 \<le> d"
proof -
  from closest_on_path_char [OF scenic_length(1), of lat lon]
  obtain k where k: "k < length SCENIC_LOOP_WAYPOINTS - 1"
    "closest_on_path SCENIC_LOOP_WAYPOINTS lat lon
       = Inr ((real k + seg_t SCENIC_LOOP_WAYPOINTS lat lon k) / real (length SCENIC_LOOP_WAYPOINTS - 1),
              Fin (seg_d SCENIC_LOOP_WAYPOINTS lat lon k))"
    by blast
  let ?t = "seg_t SCENIC_LOOP_WAYPOINTS lat lon k"
  have t: "0 \<le> ?t" "?t \<le> 1" using seg_t_range [of SCENIC_LOOP_WAYPOINTS lat lon k] by simp_all
  have "real k + 1 \<le> 11" using k(1) scenic_length(2) by linarith
  then have b: "0 \<le> (real k + ?t) / 11" "(real k + ?t) / 11 \<le> 1" using t by simp_all
  have "find_closest_waypoint_on_path lat lon
          = Inr ((real k + ?t) / 11, Fin (seg_d SCENIC_LOOP_WAYPOINTS lat lon k))"
    unfolding find_closest_waypoint_on_path_def k(2) scenic_length(2) ..
  then show ?thesis
    using b seg_d_nonneg [of SCENIC_LOOP_WAYPOINTS lat lon k] by blast
qed

lemma path_data_total:
  "\<exists>pds. path_data df = Inr pds \<and> length pds = length df
      \<and> (\<forall>i<length df. find_closest_waypoint_on_path (Latitude (snd (df ! i))) (Longitude (snd (df ! i)))
                           = Inr (pds ! i))"
proof (induction df)
  case Nil
  then show ?case by simp
next
  case (Cons a df)
  obtain l row where a: "a = (l, row)" by (cases a)
  obtain p d where pd: "find_closest_waypoint_on_path (Latitude row) (Longitude row) = Inr (p, Fin d)"
    using find_closest_waypoint_on_path_total by blast
  from Cons.IH obtain pds where pds: "path_data df = Inr pds" "length pds = length df"
    "\<forall>i<length df. find_closest_waypoint_on_path (Latitude (snd (df ! i))) (Longitude (snd (df ! i)))
                           = Inr (pds ! i)"
    by blast
  have "path_data (a # df) = Inr ((p, Fin d) # pds)" by (simp add: a pd pds(1))
  moreover have "\<forall>i<length (a # df).
      find_closest_waypoint_on_path (Latitude (snd ((a # df) ! i))) (Longitude (snd ((a # df) ! i)))
        = Inr (((p, Fin d) # pds) ! i)"
    using pds(3) pd by (auto simp: a nth_Cons split: nat.splits)
  ultimately show ?case using pds(2) by simp
qed

lemma assign_order_nth:
  assumes "i < length df"
  shows "fst (assign_order df ! i) = fst (df ! i)"
    and "Scenic_Loop_Order (snd (assign_order df ! i)) = int i + 1"
    and "Path_Position (snd (assign_order df ! i)) = Path_Position (snd (df ! i))"
    and "Distance_to_Road (snd (assign_order df ! i)) = Distance_to_Road (snd (df ! i))"
    and "Latitude (snd (assign_order df ! i)) = Latitude (snd (df ! i))"
    and "Longitude (snd (assign_order df ! i)) = Longitude (snd (df ! i))"
    and "Route (snd (assign_order df ! i)) = Route (snd (df ! i))"
  using assms by (simp_all add: assign_order_def split: prod.splits)

lemma length_assign_order: "length (assign_order df) = length df"
  by (simp add: assign_order_def)

lemma assign_columns_default_index:
  assumes idx: "map fst df = [0..<length df]" and len: "length pds = length df"
    and own: "\<forall>i<length df. find_closest_waypoint_on_path (Latitude (snd (df ! i))) (Longitude (snd (df ! i)))
                           = Inr (pds ! i)"
    and mem: "(l, r) \<in> set (assign_columns df pds)"
  shows "find_closest_waypoint_on_path (Latitude r) (Longitude r)
           = Inr (the (Path_Position r), the (Distance_to_Road r))
         \<and> Path_Position r \<noteq> None \<and> l < length df
         \<and> Route r = Route (snd (df ! l)) \<and> Latitude r = Latitude (snd (df ! l))
         \<and> Longitude r = Longitude (snd (df ! l))"
proof -
  from mem obtain i where i: "i < length df" "assign_columns df pds ! i = (l, r)"
    by (auto simp: in_set_conv_nth assign_columns_def)
  have "fst (df ! i) = i" using idx i(1) by (metis nth_map nth_upt add_0 length_map)
  then obtain row where row: "df ! i = (i, row)" by (cases "df ! i") auto
  have li: "l = i" and r: "r = \<lparr>Route = Route row, Area = Area row, Canyon = Canyon row,
             Latitude = Latitude row, Longitude = Longitude row,
             Path_Position = Some (fst (pds ! i)),
             Distance_to_Road = Some (snd (pds ! i))\<rparr>"
    using i len by (auto simp: assign_columns_def row)
  have "find_closest_waypoint_on_path (Latitude row) (Longitude row) = Inr (pds ! i)"
    using own i(1) row by auto
  then show ?thesis using i(1) row by (simp add: li r)
qed

text \<open>
  On a frame whose labels are \<open>0 .. N-1\<close>, as \<^verbatim>\<open>read_csv\<close> gives it, and with at least
  one row, the assignment is the intended one: every route carries the pair projected
  from its own coordinate, the ranks are \<open>1 .. N\<close> by position, and the progress is
  ascending along the ranks.
\<close>

lemma analyze_scenic_loop_order_default_index:
  assumes idx: "map fst df = [0..<length df]" and ne: "df \<noteq> []"
  shows "\<exists>out. analyze_scenic_loop_order df = Inr out \<and> length out = length df
      \<and> set (map fst out) = {0..<length df}
      \<and> (\<forall>i<length out. Scenic_Loop_Order (snd (out ! i)) = int i + 1)
      \<and> (\<forall>i j. i < j \<and> j < length out \<longrightarrow>
             the (Path_Position (snd (out ! i))) \<le> the (Path_Position (snd (out ! j))))
      \<and> (\<forall>(l, r)\<in>set out.
             find_closest_waypoint_on_path (Latitude r) (Longitude r)
               = Inr (the (Path_Position r), the (Distance_to_Road r))
             \<and> Path_Position r \<noteq> None
             \<and> Route r = Route (snd (df ! l)) \<and> Latitude r = Latitude (snd (df ! l))
             \<and> Longitude r = Longitude (snd (df ! l)))"
proof -
  from path_data_total [of df] obtain pds where pds: "path_data df = Inr pds"
    "length pds = length df"
    "\<forall>i<length df. find_closest_waypoint_on_path (Latitude (snd (df ! i))) (Longitude (snd (df ! i)))
                           = Inr (pds ! i)"
    by blast
  define cols where "cols = assign_columns df pds"
  define srt where "srt = sort_values_Path_Position cols"
  define out where "out = assign_order srt"
  have res: "analyze_scenic_loop_order df = Inr out"
    using pds(1,2) ne by (auto simp: analyze_scenic_loop_order_def out_def srt_def cols_def)
  have own: "find_closest_waypoint_on_path (Latitude r) (Longitude r)
           = Inr (the (Path_Position r), the (Distance_to_Road r))
         \<and> Path_Position r \<noteq> None \<and> l < length df
         \<and> Route r = Route (snd (df ! l)) \<and> Latitude r = Latitude (snd (df ! l))
         \<and> Longitude r = Longitude (snd (df ! l))" if "(l, r) \<in> set cols" for l r
    using assign_columns_default_index [OF idx pds(2,3)] that unfolding cols_def by blast
  have set_srt: "set srt = set cols"
    by (simp add: srt_def sort_values_Path_Position_def set_sort_by)
  have len_srt: "length srt = length df"
    by (simp add: srt_def sort_values_Path_Position_def length_sort_by cols_def assign_columns_def)
  have len_out: "length out = length df" by (simp add: out_def length_assign_order len_srt)
  have fst_cols: "map fst cols = map fst df"
    by (simp add: cols_def assign_columns_def split_def o_def)
  have "set (map fst out) = set (map fst srt)"
  proof -
    have "map fst out = map fst srt"
      by (rule nth_equalityI) (simp_all add: out_def length_assign_order assign_order_nth)
    then show ?thesis by simp
  qed
  also have "\<dots> = set (map fst cols)" by (simp add: set_srt)
  also have "\<dots> = {0..<length df}" by (simp add: fst_cols idx)
  finally have labels: "set (map fst out) = {0..<length df}" .
  have ranks: "\<forall>i<length out. Scenic_Loop_Order (snd (out ! i)) = int i + 1"
    by (simp add: out_def length_assign_order assign_order_nth)
  have some: "Path_Position (snd (srt ! i)) \<noteq> None" if "i < length srt" for i
  proof -
    have "srt ! i \<in> set cols" using that set_srt nth_mem by blast
    then show ?thesis using own [of "fst (srt ! i)" "snd (srt ! i)"] by simp
  qed
  have asc: "the (Path_Position (snd (out ! i))) \<le> the (Path_Position (snd (out ! j)))"
    if "i < j \<and> j < length out" for i j
  proof -
    from that have ij: "i < j" "j < length srt" "i < length srt"
      by (simp_all add: out_def length_assign_order)
    have "nan_last_le (Path_Position (snd (srt ! i))) (Path_Position (snd (srt ! j)))"
      using sorted_sort_values [of cols] ij(1,2) unfolding srt_def [symmetric]
      by (simp add: sorted_wrt_iff_nth_less)
    moreover obtain a b where "Path_Position (snd (srt ! i)) = Some a"
        "Path_Position (snd (srt ! j)) = Some b"
      using some [OF ij(2)] some [OF ij(3)] by auto
    ultimately show ?thesis using ij by (simp add: out_def assign_order_nth)
  qed
  have mem: "find_closest_waypoint_on_path (Latitude r) (Longitude r)
               = Inr (the (Path_Position r), the (Distance_to_Road r))
             \<and> Path_Position r \<noteq> None
             \<and> Route r = Route (snd (df ! l)) \<and> Latitude r = Latitude (snd (df ! l))
             \<and> Longitude r = Longitude (snd (df ! l))" if "(l, r) \<in> set out" for l r
  proof -
    from that obtain i where i: "i < length srt" "out ! i = (l, r)"
      by (auto simp: in_set_conv_nth out_def length_assign_order)
    have "srt ! i \<in> set cols" using i(1) set_srt nth_mem by blast
    then have c: "(fst (srt ! i), snd (srt ! i)) \<in> set cols" by simp
    have l: "l = fst (srt ! i)" using i assign_order_nth(1) [OF i(1)] by (simp add: out_def)
    have r: "r = snd (assign_order srt ! i)" using i(2) by (simp add: out_def)
    show ?thesis
      unfolding r l assign_order_nth(3-7) [OF i(1)] using own [OF c] by blast
  qed
  show ?thesis using res len_out labels ranks asc mem by blast
qed

section \<open>Area aggregation\<close>














end
